theory Spec2Isabelle
  imports Complex_Main
begin

section \<open>The environment of the two scaling scripts\<close>

text \<open>
  Both scripts (\<^verbatim>\<open>task1/horizontal-scaling.py\<close>, \<^verbatim>\<open>task2/autoscaling.py\<close>) are
  sequences of calls to the outside world: HTTP requests to the load generator and to
  web servers, the EC2 API, the wall clock, the local file system and \<^verbatim>\<open>time.sleep\<close>.
  The outside world is an oracle \<open>world\<close>: for every external call it fixes what that
  call would answer if it were the \<open>k\<close>-th oracle call of the run. The run itself
  is explicit state passing over \<open>env\<close>, which counts the oracle calls made so far, records
  every external action in a trace and holds the files written. The local file system
  is a map from names to contents whose operations always succeed.

  Python exceptions are values. Only subclasses of \<^verbatim>\<open>Exception\<close> are modelled
  (\<^verbatim>\<open>KeyboardInterrupt\<close> and \<^verbatim>\<open>SystemExit\<close> are not).
\<close>

datatype exn_class =
    ReqConnectionError   \<comment> \<open>\<^verbatim>\<open>requests.exceptions.ConnectionError\<close>\<close>
  | ReqOther             \<comment> \<open>any other subclass of \<^verbatim>\<open>requests.exceptions.RequestException\<close>\<close>
  | ClientError          \<comment> \<open>\<^verbatim>\<open>botocore.exceptions.ClientError\<close> and the other boto errors\<close>
  | IndexError
  | ValueError
  | MissingSectionHeaderError
  | ParsingError
  | OSError
  | OtherException

datatype pyexn = PyExn exn_class string

fun is_RequestException :: "pyexn \<Rightarrow> bool" where
  "is_RequestException (PyExn c m) = (c = ReqConnectionError \<or> c = ReqOther)"


record response =
  status_code :: int
  resp_text :: string   \<comment> \<open>\<^verbatim>\<open>response.text\<close>\<close>

text \<open>A \<^verbatim>\<open>datetime\<close> is a count of microseconds, the resolution of the type.\<close>

type_synonym datetime = int

text \<open>
  A Python \<^verbatim>\<open>float\<close>: every finite double is a rational number; the comparisons of
  the scripts (with the integer literals 50 and 100) are exact.
\<close>

datatype pyfloat = Finite rat | PosInf | NegInf | NaN

datatype pynum = PyInt int | PyFloat pyfloat

datatype message =
    MsgWaiting string | MsgReady string | MsgNotReady string
  | MsgLaunching string
  | MsgSection string
  | MsgCreatedSG string
  | MsgLGRunning string "string option"
  | MsgWSRunning string "string option"
  | MsgTestInitialized string
  | MsgRps pynum rat
  | MsgRpsLow
  | MsgNoDns
  | MsgAdded string
  | MsgAddError int
  | MsgSkipAdd
  | MsgScalingPaused pyexn
  | MsgTerminated "string list"
  | MsgWaitingSG
  | MsgSGDeleted
  | MsgSGNotDeleted pyexn
  | MsgCritical pyexn
  | MsgError pyexn
  | MsgInProgress

datatype event =
    EvGet string                 \<comment> \<open>\<^verbatim>\<open>requests.get(url)\<close>\<close>
  | EvNow                        \<comment> \<open>\<^verbatim>\<open>datetime.now(timezone.utc)\<close>\<close>
  | EvSleep nat                  \<comment> \<open>\<^verbatim>\<open>time.sleep(seconds)\<close>\<close>
  | EvPrint message              \<comment> \<open>\<^verbatim>\<open>print(...)\<close>\<close>
  | EvOpenW string               \<comment> \<open>\<^verbatim>\<open>open(name, "w")\<close>\<close>
  | EvOpenR string               \<comment> \<open>\<^verbatim>\<open>open(name, "r")\<close>\<close>
  | EvCreateSG
  | EvAuthorize string
  | EvCreateInstances string string   \<comment> \<open>\<^verbatim>\<open>ec2.create_instances\<close> with AMI and security group\<close>
  | EvWaitRunning string
  | EvReload string
  | EvTerminate "string list"
  | EvDeleteSG string
  | EvApi string                 \<comment> \<open>a call of the AWS API whose answer is not looked at (task 2)\<close>
  | EvDescribe string "pyexn + string option"
      \<comment> \<open>a \<^verbatim>\<open>describe_...\<close> call of the AWS API with its answer (task 2)\<close>
  | EvDescribeInstances "pyexn + string list"
      \<comment> \<open>the listing of the tagged instances with its answer (task 2)\<close>

record world =
  http_get :: "nat \<Rightarrow> pyexn + response"
  now :: "nat \<Rightarrow> datetime"
  create_security_group :: "nat \<Rightarrow> pyexn + string"
  authorize_ingress :: "nat \<Rightarrow> pyexn option"
  create_instances :: "nat \<Rightarrow> pyexn + string"
  wait_until_running :: "nat \<Rightarrow> pyexn option"
  reload :: "nat \<Rightarrow> pyexn + string option"
  terminate :: "nat \<Rightarrow> pyexn option"
  sg_delete :: "nat \<Rightarrow> pyexn option"
  api :: "nat \<Rightarrow> pyexn option"
  describe_one :: "nat \<Rightarrow> pyexn + string option"
  describe_ids :: "nat \<Rightarrow> pyexn + string list"

record env =
  calls :: nat
  trace :: "event list"
  files :: "string \<Rightarrow> string option"

definition emit :: "event \<Rightarrow> env \<Rightarrow> env" where
  "emit e s = s\<lparr>trace := trace s @ [e]\<rparr>"

definition extcall :: "event \<Rightarrow> env \<Rightarrow> env" where
  "extcall e s = s\<lparr>calls := Suc (calls s), trace := trace s @ [e]\<rparr>"

definition print :: "message \<Rightarrow> env \<Rightarrow> env" where
  "print m s = emit (EvPrint m) s"

definition sleep :: "nat \<Rightarrow> env \<Rightarrow> env" where
  "sleep n s = emit (EvSleep n) s"

definition requests_get :: "world \<Rightarrow> string \<Rightarrow> env \<Rightarrow> (pyexn + response) \<times> env" where
  "requests_get w url s = (http_get w (calls s), extcall (EvGet url) s)"

definition datetime_now :: "world \<Rightarrow> env \<Rightarrow> datetime \<times> env" where
  "datetime_now w s = (now w (calls s), extcall EvNow s)"

definition env0 :: env where
  "env0 = \<lparr>calls = 0, trace = [], files = (\<lambda>f. None)\<rparr>"

section \<open>Health probing (task 1)\<close>

text \<open>
  \<^verbatim>\<open>wait_for_server_health(dns_name)\<close>: the loop \<^verbatim>\<open>while retries < 40\<close>, one probe per
  round; a probe answering 200 returns True at once, a
  \<^verbatim>\<open>requests.exceptions.RequestException\<close> is swallowed, any other exception leaves the
  function; after a probe that did not succeed the loop sleeps 2 seconds.
\<close>

function wait_loop :: "world \<Rightarrow> string \<Rightarrow> string \<Rightarrow> nat \<Rightarrow> env \<Rightarrow> (pyexn + bool) \<times> env" where
  "wait_loop w dns_name url retries s =
     (if retries < 40 then
        (case requests_get w url s of
           (Inr resp, s1) \<Rightarrow>
             if status_code resp = 200 then (Inr True, print (MsgReady dns_name) s1)
             else wait_loop w dns_name url (Suc retries) (sleep 2 s1)
         | (Inl e, s1) \<Rightarrow>
             if is_RequestException e
             then wait_loop w dns_name url (Suc retries) (sleep 2 s1)
             else (Inl e, s1))
      else (Inr False, print (MsgNotReady dns_name) s))"
  by pat_completeness auto
termination
  by (relation "measure (\<lambda>(w, d, u, r, s). 40 - r)") auto

declare wait_loop.simps [simp del]

definition wait_for_server_health :: "world \<Rightarrow> string \<Rightarrow> env \<Rightarrow> (pyexn + bool) \<times> env" where
  "wait_for_server_health w dns_name s =
     wait_loop w dns_name (''http://'' @ dns_name) 0 (print (MsgWaiting dns_name) s)"

fun is_get :: "event \<Rightarrow> bool" where
  "is_get (EvGet u) = True"
| "is_get e = False"

definition probes :: "event list \<Rightarrow> nat" where
  "probes tr = length (filter is_get tr)"

text \<open>A probe outcome that is not a success: a transport error or a status other than 200.\<close>

fun probe_fails :: "pyexn + response \<Rightarrow> bool" where
  "probe_fails (Inl e) = is_RequestException e"
| "probe_fails (Inr r) = (status_code r \<noteq> 200)"

section \<open>Strings\<close>

text \<open>\<open>startswith p s\<close> is \<^verbatim>\<open>s.startswith(p)\<close>, \<open>contains p s\<close> is \<^verbatim>\<open>p in s\<close>.\<close>

fun startswith :: "string \<Rightarrow> string \<Rightarrow> bool" where
  "startswith [] s = True"
| "startswith (p # ps) [] = False"
| "startswith (p # ps) (c # cs) = (p = c \<and> startswith ps cs)"

fun contains :: "string \<Rightarrow> string \<Rightarrow> bool" where
  "contains p [] = (p = [])"
| "contains p (c # cs) = (startswith p (c # cs) \<or> contains p cs)"

definition newline :: char where
  "newline = CHR 0x0A"

section \<open>The log identifier: \<^verbatim>\<open>get_test_id\<close> (both scripts)\<close>

text \<open>
  \<^verbatim>\<open>TEST_NAME_REGEX = r'name=(.*log)'\<close> and \<^verbatim>\<open>regexpr.findall(response_text)[0]\<close>.
  \<open>longest_log xs\<close> is the longest prefix of \<open>xs\<close> that ends in \<^verbatim>\<open>log\<close>: what the
  greedy group \<^verbatim>\<open>(.*log)\<close> captures on a text without line breaks. \<open>match_here s\<close> is
  the capture of a match of the pattern that starts at the first character of \<open>s\<close>; the
  dot does not match a line break, so the group stays within the line.
  \<open>findall_name\<close> scans from left to right, and goes on behind each match.
\<close>

fun longest_log :: "string \<Rightarrow> string option" where
  "longest_log [] = None"
| "longest_log (c # cs) =
     (case longest_log cs of
        Some p \<Rightarrow> Some (c # p)
      | None \<Rightarrow> if startswith ''log'' (c # cs) then Some ''log'' else None)"

definition match_here :: "string \<Rightarrow> string option" where
  "match_here s =
     (if startswith ''name='' s
      then longest_log (takeWhile (\<lambda>c. c \<noteq> newline) (drop 5 s))
      else None)"

function findall_name :: "string \<Rightarrow> string list" where
  "findall_name [] = []"
| "findall_name (c # cs) =
     (case match_here (c # cs) of
        Some cap \<Rightarrow> cap # findall_name (drop (5 + length cap) (c # cs))
      | None \<Rightarrow> findall_name cs)"
  by pat_completeness auto
termination
  by (relation "measure length") auto

definition get_test_id :: "response \<Rightarrow> pyexn + string" where
  "get_test_id response =
     (case findall_name (resp_text response) of
        [] \<Rightarrow> Inl (PyExn IndexError ''list index out of range'')
      | x # xs \<Rightarrow> Inr x)"

text \<open>
  The pattern as a set of strings, for the specification: a match is \<^verbatim>\<open>name=\<close>, then
  any characters other than a line break, then \<^verbatim>\<open>log\<close>; the captured group is the
  part behind \<^verbatim>\<open>name=\<close>.
\<close>

definition is_capture :: "string \<Rightarrow> bool" where
  "is_capture c = (\<exists>u. c = u @ ''log'' \<and> newline \<notin> set u)"

definition match_at :: "string \<Rightarrow> nat \<Rightarrow> string \<Rightarrow> bool" where
  "match_at txt i c =
     (is_capture c \<and> i + 5 + length c \<le> length txt \<and>
      take (5 + length c) (drop i txt) = ''name='' @ c)"

section \<open>The completion check: \<^verbatim>\<open>is_test_complete\<close>\<close>

definition log_url :: "string \<Rightarrow> string \<Rightarrow> string" where
  "log_url lg_dns log_name = ''http://'' @ lg_dns @ ''/log?name='' @ log_name"

definition open_w :: "string \<Rightarrow> env \<Rightarrow> env" where
  "open_w name s = (emit (EvOpenW name) s)\<lparr>files := (files s)(name \<mapsto> [])\<rparr>"

definition file_write :: "string \<Rightarrow> string \<Rightarrow> env \<Rightarrow> env" where
  "file_write name txt s =
     s\<lparr>files := (files s)(name \<mapsto> (case files s name of None \<Rightarrow> txt | Some old \<Rightarrow> old @ txt))\<rparr>"

text \<open>Task 1: the fetch is not guarded, its exception leaves the function.\<close>

definition is_test_complete :: "world \<Rightarrow> string \<Rightarrow> string \<Rightarrow> env \<Rightarrow> (pyexn + bool) \<times> env" where
  "is_test_complete w lg_dns log_name s =
     (let s1 = open_w (log_name @ ''.log'') s in
      case requests_get w (log_url lg_dns log_name) s1 of
        (Inl e, s2) \<Rightarrow> (Inl e, s2)
      | (Inr r, s2) \<Rightarrow>
          (Inr (contains ''[Test finished]'' (resp_text r)),
           file_write (log_name @ ''.log'') (resp_text r) s2))"

text \<open>
  Task 2: the fetch and the write are inside \<^verbatim>\<open>try: ... except: pass\<close>; the result is
  computed from the file read back.
\<close>

definition is_test_complete_t2 :: "world \<Rightarrow> string \<Rightarrow> string \<Rightarrow> env \<Rightarrow> (pyexn + bool) \<times> env" where
  "is_test_complete_t2 w load_generator_dns log_name s =
     (let s1 = open_w (log_name @ ''.log'') s;
          s3 = (case requests_get w (log_url load_generator_dns log_name) s1 of
                  (Inl e, s2) \<Rightarrow> s2
                | (Inr r, s2) \<Rightarrow> file_write (log_name @ ''.log'') (resp_text r) s2);
          s4 = emit (EvOpenR (log_name @ ''.log'')) s3
      in case files s4 (log_name @ ''.log'') of
           None \<Rightarrow> (Inl (PyExn OSError ''No such file or directory''), s4)
         | Some content \<Rightarrow> (Inr (contains ''[Test finished]'' content), s4))"

section \<open>The metric: \<^verbatim>\<open>get_rps\<close> (task 1)\<close>

text \<open>
  \<^verbatim>\<open>get_rps\<close> hands the report to \<^verbatim>\<open>configparser.ConfigParser(strict=False)\<close> of the
  Python standard library and reads \<^verbatim>\<open>config.sections()\<close>. The part of
  \<^verbatim>\<open>ConfigParser._read\<close> that decides the section list is modelled line by line, with
  the default settings (comment prefixes \<^verbatim>\<open>#\<close> and \<^verbatim>\<open>;\<close>, delimiters \<^verbatim>\<open>=\<close> and
  \<^verbatim>\<open>:\<close>, empty lines allowed in values, no valueless options):
  \<^item> a line whose stripped text is empty or starts a comment is skipped;
  \<^item> inside a section and after an option, a line indented deeper than the option
    continues the option's value, whatever it looks like;
  \<^item> otherwise a line matching \<^verbatim>\<open>\[(.+)\]\<close> at its start opens a section: a new name
    is appended to the section list, a name seen before is reopened (\<^verbatim>\<open>strict=False\<close>),
    and \<^verbatim>\<open>DEFAULT\<close> is never listed;
  \<^item> any other line before the first section header raises
    \<^verbatim>\<open>MissingSectionHeaderError\<close> at once;
  \<^item> any other line is an option if it holds a delimiter and its name is not empty;
    if not, the error is recorded and \<^verbatim>\<open>ParsingError\<close> is raised after the last line.
  Characters are the code points below 256.
\<close>

definition is_space :: "char \<Rightarrow> bool" where
  "is_space c = (c \<in> {CHR 0x09, CHR 0x0A, CHR 0x0B, CHR 0x0C, CHR 0x0D,
                      CHR 0x1C, CHR 0x1D, CHR 0x1E, CHR 0x1F, CHR 0x20, CHR 0x85, CHR 0xA0})"

definition strip :: "string \<Rightarrow> string" where
  "strip s = rev (dropWhile is_space (rev (dropWhile is_space s)))"

fun split_lines :: "string \<Rightarrow> string list" where
  "split_lines [] = [[]]"
| "split_lines (c # cs) =
     (if c = newline then [] # split_lines cs
      else (case split_lines cs of
              l # ls \<Rightarrow> (c # l) # ls
            | [] \<Rightarrow> [[c]]))"

text \<open>
  \<^verbatim>\<open>SECTCRE.match(value)\<close> with \<^verbatim>\<open>\[(?P<header>.+)\]\<close>: the header is what stands
  between the opening bracket and the last closing bracket, and is not empty.
\<close>

definition sect_header :: "string \<Rightarrow> string option" where
  "sect_header v =
     (case v of
        [] \<Rightarrow> None
      | c # rest \<Rightarrow>
          if c \<noteq> CHR ''['' then None
          else (case dropWhile (\<lambda>x. x \<noteq> CHR '']'') (rev rest) of
                  [] \<Rightarrow> None
                | b # hdr \<Rightarrow> if hdr = [] then None else Some (rev hdr)))"

definition is_delim :: "char \<Rightarrow> bool" where
  "is_delim c = (c = CHR ''='' \<or> c = CHR '':'')"

record cp =
  sections :: "string list"   \<comment> \<open>the keys of \<^verbatim>\<open>_sections\<close>, in insertion order\<close>
  headers :: "string list"    \<comment> \<open>every section header read so far, in the order of the text\<close>
  cursect :: bool             \<comment> \<open>\<^verbatim>\<open>cursect is not None\<close>\<close>
  optname :: bool             \<comment> \<open>\<^verbatim>\<open>optname\<close> is a non-empty string\<close>
  indent_level :: nat
  err :: bool                 \<comment> \<open>\<^verbatim>\<open>e is not None\<close>\<close>

definition cp0 :: cp where
  "cp0 = \<lparr>sections = [], headers = [], cursect = False, optname = False, indent_level = 0, err = False\<rparr>"

definition read_line :: "string \<Rightarrow> cp \<Rightarrow> pyexn + cp" where
  "read_line line st =
     (let val = strip line in
      if val = [] \<or> startswith ''#'' val \<or> startswith '';'' val then Inr st
      else
        let cur_indent_level = length (takeWhile is_space line) in
        if cursect st \<and> optname st \<and> cur_indent_level > indent_level st then Inr st
        else
          let st1 = st\<lparr>indent_level := cur_indent_level\<rparr> in
          (case sect_header val of
             Some sectname \<Rightarrow>
               Inr (st1\<lparr>sections :=
                            (if sectname \<in> set (sections st) \<or> sectname = ''DEFAULT''
                             then sections st else sections st @ [sectname]),
                        headers := headers st @ [sectname],
                        cursect := True, optname := False\<rparr>)
           | None \<Rightarrow>
               if \<not> cursect st
               then Inl (PyExn MissingSectionHeaderError ''File contains no section headers.'')
               else if list_ex is_delim val
               then (if is_delim (hd val)
                     then Inr (st1\<lparr>optname := False, err := True\<rparr>)
                     else Inr (st1\<lparr>optname := True\<rparr>))
               else Inr (st1\<lparr>err := True\<rparr>)))"

fun read_lines :: "string list \<Rightarrow> cp \<Rightarrow> pyexn + cp" where
  "read_lines [] st = Inr st"
| "read_lines (l # ls) st =
     (case read_line l st of
        Inl e \<Rightarrow> Inl e
      | Inr st' \<Rightarrow> read_lines ls st')"

text \<open>
  \<^verbatim>\<open>config.read_string(text)\<close>, then \<^verbatim>\<open>config.sections()\<close>. The field \<open>headers\<close>
  is not part of the parser: it records the section headers in the order in which the
  text has them, repeated ones included, for the specification.
\<close>

definition read_string :: "string \<Rightarrow> pyexn + cp" where
  "read_string txt =
     (case read_lines (split_lines txt) cp0 of
        Inl e \<Rightarrow> Inl e
      | Inr st \<Rightarrow>
          if err st then Inl (PyExn ParsingError ''Source contains parsing errors'')
          else Inr st)"

definition read_sections :: "string \<Rightarrow> pyexn + string list" where
  "read_sections txt =
     (case read_string txt of
        Inl e \<Rightarrow> Inl e
      | Inr st \<Rightarrow> Inr (sections st))"

text \<open>
  The loop over the reversed section list. \<open>pf\<close> is Python's \<^verbatim>\<open>float()\<close> on strings
  (\<open>None\<close> where it raises \<^verbatim>\<open>ValueError\<close>); \<^verbatim>\<open>len('Current rps=')\<close> is 12.
\<close>

definition to_rps :: "(string \<Rightarrow> pyfloat option) \<Rightarrow> string \<Rightarrow> pyexn + pynum" where
  "to_rps pf sec =
     (case pf (drop (length ''Current rps='') sec) of
        None \<Rightarrow> Inl (PyExn ValueError ''could not convert string to float'')
      | Some x \<Rightarrow> Inr (PyFloat x))"

fun rps_loop :: "(string \<Rightarrow> pyfloat option) \<Rightarrow> string list \<Rightarrow> pyexn + pynum" where
  "rps_loop pf [] = Inr (PyInt 0)"
| "rps_loop pf (sec # secs) =
     (if contains ''Current rps='' sec then to_rps pf sec else rps_loop pf secs)"

definition rps_of_text :: "(string \<Rightarrow> pyfloat option) \<Rightarrow> string \<Rightarrow> pyexn + pynum" where
  "rps_of_text pf txt =
     (case read_sections txt of
        Inl e \<Rightarrow> Inl e
      | Inr secs \<Rightarrow> rps_loop pf (rev secs))"

definition get_rps ::
  "(string \<Rightarrow> pyfloat option) \<Rightarrow> world \<Rightarrow> string \<Rightarrow> string \<Rightarrow> env \<Rightarrow> (pyexn + pynum) \<times> env" where
  "get_rps pf w lg_dns log_name s =
     (case requests_get w (log_url lg_dns log_name) s of
        (Inl e, s1) \<Rightarrow> (Inl e, s1)
      | (Inr r, s1) \<Rightarrow> (rps_of_text pf (resp_text r), s1))"

section \<open>The horizontal-scaling controller (task 1)\<close>

record config =
  load_generator_ami :: string
  web_service_ami :: string
  instance_type :: string

record ec2_instance =
  instance_id :: string
  public_dns_name :: "string option"

definition ec2_create_instances :: "world \<Rightarrow> string \<Rightarrow> string \<Rightarrow> env \<Rightarrow> (pyexn + string) \<times> env" where
  "ec2_create_instances w ami sg_id s =
     (create_instances w (calls s), extcall (EvCreateInstances ami sg_id) s)"

definition instance_wait_until_running :: "world \<Rightarrow> string \<Rightarrow> env \<Rightarrow> pyexn option \<times> env" where
  "instance_wait_until_running w iid s = (wait_until_running w (calls s), extcall (EvWaitRunning iid) s)"

definition instance_reload :: "world \<Rightarrow> string \<Rightarrow> env \<Rightarrow> (pyexn + string option) \<times> env" where
  "instance_reload w iid s = (reload w (calls s), extcall (EvReload iid) s)"

definition instances_terminate :: "world \<Rightarrow> string list \<Rightarrow> env \<Rightarrow> pyexn option \<times> env" where
  "instances_terminate w ids s = (terminate w (calls s), extcall (EvTerminate ids) s)"

definition security_group_delete :: "world \<Rightarrow> string \<Rightarrow> env \<Rightarrow> pyexn option \<times> env" where
  "security_group_delete w g s = (sg_delete w (calls s), extcall (EvDeleteSG g) s)"

definition ec2_create_security_group :: "world \<Rightarrow> env \<Rightarrow> (pyexn + string) \<times> env" where
  "ec2_create_security_group w s = (create_security_group w (calls s), extcall EvCreateSG s)"

definition sg_authorize_ingress :: "world \<Rightarrow> string \<Rightarrow> env \<Rightarrow> pyexn option \<times> env" where
  "sg_authorize_ingress w g s = (authorize_ingress w (calls s), extcall (EvAuthorize g) s)"

text \<open>\<^verbatim>\<open>create_instance(ami, sg_id)\<close>: create, wait for the running state, reload.\<close>

definition create_instance :: "world \<Rightarrow> string \<Rightarrow> string \<Rightarrow> env \<Rightarrow> (pyexn + ec2_instance) \<times> env" where
  "create_instance w ami sg_id s =
     (case ec2_create_instances w ami sg_id s of
        (Inl e, s1) \<Rightarrow> (Inl e, s1)
      | (Inr iid, s1) \<Rightarrow>
          (case instance_wait_until_running w iid (print (MsgLaunching iid) s1) of
             (Some e, s2) \<Rightarrow> (Inl e, s2)
           | (None, s2) \<Rightarrow>
               (case instance_reload w iid s2 of
                  (Inl e, s3) \<Rightarrow> (Inl e, s3)
                | (Inr dns, s3) \<Rightarrow> (Inr \<lparr>instance_id = iid, public_dns_name = dns\<rparr>, s3))))"

text \<open>How \<^verbatim>\<open>str.format\<close> and f-strings render a DNS name that may be \<^verbatim>\<open>None\<close>.\<close>

fun dns_str :: "string option \<Rightarrow> string" where
  "dns_str None = ''None''"
| "dns_str (Some d) = d"




text \<open>The local variables of \<^verbatim>\<open>main\<close> that the loop and the \<^verbatim>\<open>finally\<close> block use.\<close>

record locals =
  sg :: "string option"            \<comment> \<open>\<open>None\<close>: \<^verbatim>\<open>'sg' in locals()\<close> is false\<close>
  all_instance_ids :: "string list"
  last_launch_time :: datetime     \<comment> \<open>assigned before the loop, not read before that\<close>

definition locals0 :: locals where
  "locals0 = \<lparr>sg = None, all_instance_ids = [], last_launch_time = 0\<rparr>"

text \<open>
  \<^verbatim>\<open>timedelta.total_seconds()\<close> of a difference of \<open>d\<close> microseconds is the double
  nearest to \<open>d / 10\<^sup>6\<close>. Rounding is monotone, 100 is a double and the quotients
  next to 100 are a microsecond away from it, so \<^verbatim>\<open>time_diff > 100\<close> holds of the double
  exactly when it holds of the quotient.
\<close>

definition total_seconds :: "int \<Rightarrow> rat" where
  "total_seconds d = of_int d / 1000000"

text \<open>\<^verbatim>\<open>current_rps < 50\<close>: an \<^verbatim>\<open>int\<close> or a \<^verbatim>\<open>float\<close> against an integer literal.\<close>

fun num_lt :: "pynum \<Rightarrow> int \<Rightarrow> bool" where
  "num_lt (PyInt i) n = (i < n)"
| "num_lt (PyFloat (Finite q)) n = (q < of_int n)"
| "num_lt (PyFloat NegInf) n = True"
| "num_lt (PyFloat PosInf) n = False"
| "num_lt (PyFloat NaN) n = False"

definition add_url :: "string \<Rightarrow> string \<Rightarrow> string" where
  "add_url lg_dns new_ws_dns = ''http://'' @ lg_dns @ ''/test/horizontal/add?dns='' @ new_ws_dns"

text \<open>
  The body of the \<^verbatim>\<open>try\<close> block of a scale-out attempt, with the place where it
  ends: one of the four calls raised (the exception goes to \<^verbatim>\<open>except Exception as e\<close>),
  the instance has no DNS name (\<^verbatim>\<open>continue\<close>), or the block ran to its end with a
  failed health check, a rejected registration or a successful one.
\<close>

datatype outcome =
    ProvisioningError pyexn    \<comment> \<open>\<^verbatim>\<open>create_instance\<close> raised\<close>
  | ReloadError pyexn          \<comment> \<open>\<^verbatim>\<open>new_ws.reload()\<close> raised\<close>
  | NoDns                      \<comment> \<open>\<^verbatim>\<open>not new_ws_dns\<close>\<close>
  | ProbeError pyexn           \<comment> \<open>\<^verbatim>\<open>wait_for_server_health\<close> raised\<close>
  | ProbeFailed                \<comment> \<open>\<^verbatim>\<open>wait_for_server_health\<close> returned False\<close>
  | RegistrationError pyexn    \<comment> \<open>\<^verbatim>\<open>requests.get(add_url)\<close> raised\<close>
  | Rejected int               \<comment> \<open>\<^verbatim>\<open>res.status_code != 200\<close>\<close>
  | Registered                 \<comment> \<open>\<^verbatim>\<open>res.status_code == 200\<close>\<close>

definition attempt ::
  "config \<Rightarrow> world \<Rightarrow> string \<Rightarrow> string \<Rightarrow> locals \<Rightarrow> env \<Rightarrow> outcome \<times> locals \<times> env" where
  "attempt cfg w lg_dns sg2_id l s =
     (case create_instance w (web_service_ami cfg) sg2_id s of
        (Inl e, s1) \<Rightarrow> (ProvisioningError e, l, s1)
      | (Inr new_ws, s1) \<Rightarrow>
          let l1 = l\<lparr>all_instance_ids := all_instance_ids l @ [instance_id new_ws]\<rparr> in
          (case instance_reload w (instance_id new_ws) s1 of
             (Inl e, s2) \<Rightarrow> (ReloadError e, l1, s2)
           | (Inr new_ws_dns, s2) \<Rightarrow>
               if new_ws_dns = None \<or> new_ws_dns = Some []
               then (NoDns, l1, print MsgNoDns s2)
               else
                 (case wait_for_server_health w (dns_str new_ws_dns) s2 of
                    (Inl e, s3) \<Rightarrow> (ProbeError e, l1, s3)
                  | (Inr healthy, s3) \<Rightarrow>
                      if healthy then
                        (case requests_get w (add_url lg_dns (dns_str new_ws_dns)) s3 of
                           (Inl e, s4) \<Rightarrow> (RegistrationError e, l1, s4)
                         | (Inr res, s4) \<Rightarrow>
                             if status_code res = 200 then
                               (case datetime_now w s4 of
                                  (t, s5) \<Rightarrow>
                                    (Registered, l1\<lparr>last_launch_time := t\<rparr>,
                                     print (MsgAdded (instance_id new_ws)) s5))
                             else (Rejected (status_code res), l1,
                                   print (MsgAddError (status_code res)) s4))
                      else (ProbeFailed, l1, print MsgSkipAdd s3))))"

text \<open>The exception that reaches \<^verbatim>\<open>except Exception as e\<close>, if the attempt ended by one.\<close>

fun caught :: "outcome \<Rightarrow> pyexn option" where
  "caught (ProvisioningError e) = Some e"
| "caught (ReloadError e) = Some e"
| "caught (ProbeError e) = Some e"
| "caught (RegistrationError e) = Some e"
| "caught out = None"

text \<open>
  The first half of the loop body (\<^verbatim>\<open># Fetch metrics\<close>): \<^verbatim>\<open>current_rps\<close>,
  \<^verbatim>\<open>current_time\<close>, \<^verbatim>\<open>time_diff\<close> and the line printed from them.
\<close>

definition fetch_metrics ::
  "(string \<Rightarrow> pyfloat option) \<Rightarrow> world \<Rightarrow> string \<Rightarrow> string \<Rightarrow> locals \<Rightarrow> env
     \<Rightarrow> (pyexn + pynum \<times> rat) \<times> env" where
  "fetch_metrics pf w lg_dns log_name l s =
     (case get_rps pf w lg_dns log_name s of
        (Inl e, s1) \<Rightarrow> (Inl e, s1)
      | (Inr current_rps, s1) \<Rightarrow>
          (case datetime_now w s1 of
             (current_time, s2) \<Rightarrow>
               let time_diff = total_seconds (current_time - last_launch_time l)
               in (Inr (current_rps, time_diff), print (MsgRps current_rps time_diff) s2)))"

text \<open>
  One pass through the body of \<^verbatim>\<open>while not is_test_complete(lg_dns, log_name)\<close>,
  entered after the completion check returned False: the metrics, then
  \<^verbatim>\<open>if current_rps < 50 and time_diff > 100\<close> with the guarded attempt, then
  \<^verbatim>\<open>time.sleep(1)\<close>, which \<^verbatim>\<open>continue\<close> skips.
\<close>

definition loop_body ::
  "(string \<Rightarrow> pyfloat option) \<Rightarrow> config \<Rightarrow> world \<Rightarrow> string \<Rightarrow> string \<Rightarrow> string
     \<Rightarrow> locals \<Rightarrow> env \<Rightarrow> (pyexn + unit) \<times> locals \<times> env" where
  "loop_body pf cfg w lg_dns log_name sg2_id l s =
     (case fetch_metrics pf w lg_dns log_name l s of
        (Inl e, s1) \<Rightarrow> (Inl e, l, s1)
      | (Inr (current_rps, time_diff), s3) \<Rightarrow>
          if num_lt current_rps 50 \<and> time_diff > 100 then
            (case attempt cfg w lg_dns sg2_id l (print MsgRpsLow s3) of
               (out, l', s4) \<Rightarrow>
                 (case caught out of
                    Some e \<Rightarrow> (Inr (), l', sleep 1 (print (MsgScalingPaused e) s4))
                  | None \<Rightarrow>
                      if out = NoDns then (Inr (), l', s4)
                      else (Inr (), l', sleep 1 s4)))
          else (Inr (), l, sleep 1 s3))"

text \<open>
  One iteration of the loop: the loop condition, then the body. \<open>Finished\<close> leaves the
  loop, \<open>Raised\<close> leaves it with an exception, \<open>Again\<close> goes back to the loop condition.
\<close>

datatype iter_result = Finished | Raised pyexn | Again

definition iteration ::
  "(string \<Rightarrow> pyfloat option) \<Rightarrow> config \<Rightarrow> world \<Rightarrow> string \<Rightarrow> string \<Rightarrow> string
     \<Rightarrow> locals \<Rightarrow> env \<Rightarrow> iter_result \<times> locals \<times> env" where
  "iteration pf cfg w lg_dns log_name sg2_id l s =
     (case is_test_complete w lg_dns log_name s of
        (Inl e, s1) \<Rightarrow> (Raised e, l, s1)
      | (Inr done, s1) \<Rightarrow>
          if done then (Finished, l, s1)
          else
            (case loop_body pf cfg w lg_dns log_name sg2_id l s1 of
               (Inl e, l', s2) \<Rightarrow> (Raised e, l', s2)
             | (Inr u, l', s2) \<Rightarrow> (Again, l', s2)))"

text \<open>The loop, with fuel: \<open>None\<close> is a loop still running when the fuel is used up.\<close>

fun main_loop ::
  "nat \<Rightarrow> (string \<Rightarrow> pyfloat option) \<Rightarrow> config \<Rightarrow> world \<Rightarrow> string \<Rightarrow> string \<Rightarrow> string
     \<Rightarrow> locals \<Rightarrow> env \<Rightarrow> ((pyexn + unit) \<times> locals \<times> env) option" where
  "main_loop 0 pf cfg w lg_dns log_name sg2_id l s = None"
| "main_loop (Suc n) pf cfg w lg_dns log_name sg2_id l s =
     (case iteration pf cfg w lg_dns log_name sg2_id l s of
        (Finished, l', s') \<Rightarrow> Some (Inr (), l', s')
      | (Raised e, l', s') \<Rightarrow> Some (Inl e, l', s')
      | (Again, l', s') \<Rightarrow> main_loop n pf cfg w lg_dns log_name sg2_id l' s')"





section \<open>The auto-scaling script (task 2): \<^verbatim>\<open>main\<close> and \<^verbatim>\<open>destroy_resources\<close>\<close>

















text \<open>
  The events of the six steps of \<^verbatim>\<open>destroy_resources\<close>: its banner, the five deletion
  requests, the look-ups of the load balancer and of the target group, the listing of the
  tagged instances and \<^verbatim>\<open>terminate_instances\<close>.
\<close>

definition teardown_calls :: "string list" where
  "teardown_calls =
     [''delete_auto_scaling_group'', ''delete_launch_template'', ''delete_load_balancer'',
      ''delete_target_group'', ''delete_alarms'']"

fun teardown_step :: "event \<Rightarrow> bool" where
  "teardown_step (EvPrint m) = (m = MsgSection ''Cleanup: Terminating Resources'')"
| "teardown_step (EvApi c) = (c \<in> set teardown_calls)"
| "teardown_step (EvDescribe c a) = (c = ''describe_load_balancers'' \<or> c = ''describe_target_groups'')"
| "teardown_step (EvDescribeInstances a) = True"
| "teardown_step (EvTerminate ids) = True"
| "teardown_step e = False"











text \<open>
  A pass through the loop body that makes a scale-out attempt which ends at
  \<^verbatim>\<open>continue\<close>, because the new instance has no DNS name.
\<close>

definition no_dns_pass ::
  "(string \<Rightarrow> pyfloat option) \<Rightarrow> config \<Rightarrow> world \<Rightarrow> string \<Rightarrow> string \<Rightarrow> string
     \<Rightarrow> locals \<Rightarrow> env \<Rightarrow> bool" where
  "no_dns_pass pf cfg w lg_dns log_name sg2_id l s =
     (case fetch_metrics pf w lg_dns log_name l s of
        (Inl e, s1) \<Rightarrow> False
      | (Inr (current_rps, time_diff), s3) \<Rightarrow>
          num_lt current_rps 50 \<and> time_diff > 100 \<and>
          fst (attempt cfg w lg_dns sg2_id l (print MsgRpsLow s3)) = NoDns)"

section \<open>Reading the trace\<close>

fun is_create :: "event \<Rightarrow> bool" where
  "is_create (EvCreateInstances a g) = True"
| "is_create e = False"

fun is_terminate :: "event \<Rightarrow> bool" where
  "is_terminate (EvTerminate ids) = True"
| "is_terminate e = False"

fun is_delete_sg :: "event \<Rightarrow> bool" where
  "is_delete_sg (EvDeleteSG g) = True"
| "is_delete_sg e = False"

fun is_sleep :: "event \<Rightarrow> bool" where
  "is_sleep (EvSleep n) = True"
| "is_sleep e = False"





text \<open>
  \<open>adds Q s s'\<close>: the trace of \<open>s'\<close> is the trace of \<open>s\<close> followed by events that all
  satisfy \<open>Q\<close>. \<open>count_ev P s\<close> counts the events of the trace that satisfy \<open>P\<close>.
\<close>

definition new_events :: "env \<Rightarrow> env \<Rightarrow> event list" where
  "new_events s s' = drop (length (trace s)) (trace s')"

definition adds :: "(event \<Rightarrow> bool) \<Rightarrow> env \<Rightarrow> env \<Rightarrow> bool" where
  "adds Q s s' = (take (length (trace s)) (trace s') = trace s \<and> list_all Q (new_events s s'))"

definition count_ev :: "(event \<Rightarrow> bool) \<Rightarrow> env \<Rightarrow> nat" where
  "count_ev P s = length (filter P (trace s))"

section \<open>Concrete worlds\<close>

text \<open>
  A world in which everything works and the load is low: every HTTP request is answered
  200 with a report of 10 requests per second, the clock stands at 200 seconds.
\<close>

definition w_low :: world where
  "w_low = \<lparr>http_get = (\<lambda>k. Inr \<lparr>status_code = 200, resp_text = ''[Current rps=10]''\<rparr>),
     now = (\<lambda>k. 200000000),
     create_security_group = (\<lambda>k. Inr ''sg-1''), authorize_ingress = (\<lambda>k. None),
     create_instances = (\<lambda>k. Inr (if k = 2 then ''i-lg'' else if k = 5 then ''i-ws'' else ''i-new'')),
     wait_until_running = (\<lambda>k. None),
     reload = (\<lambda>k. Inr (Some ''ws'')), terminate = (\<lambda>k. None), sg_delete = (\<lambda>k. None),
     api = (\<lambda>k. None), describe_one = (\<lambda>k. Inr None),
     describe_ids = (\<lambda>k. Inr [''i-lg'', ''i-asg''])\<rparr>"

text \<open>Variations: no web server answers; the new instance has no DNS name; EC2 refuses
  to create instances; the report shows a high load; the test is finished.\<close>

definition w_down :: world where
  "w_down = w_low\<lparr>http_get := (\<lambda>k. Inl (PyExn ReqConnectionError ''refused''))\<rparr>"

definition w_up :: world where
  "w_up = w_low\<lparr>http_get := (\<lambda>k. Inr \<lparr>status_code = 200, resp_text = ''ok''\<rparr>)\<rparr>"

definition w_nodns :: world where
  "w_nodns = w_low\<lparr>reload := (\<lambda>k. Inr None)\<rparr>"

definition w_quota :: world where
  "w_quota = w_low\<lparr>create_instances := (\<lambda>k. Inl (PyExn ClientError ''VcpuLimitExceeded''))\<rparr>"

definition w_high :: world where
  "w_high = w_low\<lparr>http_get := (\<lambda>k. Inr \<lparr>status_code = 200, resp_text = ''[Current rps=80]''\<rparr>)\<rparr>"

definition w_done :: world where
  "w_done = w_low\<lparr>http_get := (\<lambda>k. Inr \<lparr>status_code = 200, resp_text = ''[Test finished]''\<rparr>)\<rparr>"

text \<open>
  A world in which the test starts, is finished at the first check, and the EC2 API
  refuses the \<^verbatim>\<open>terminate()\<close> call of the teardown.
\<close>

definition w_finished :: world where
  "w_finished = w_low\<lparr>http_get :=
     (\<lambda>k. Inr \<lparr>status_code = 200, resp_text = ''name=t.log [Test finished]''\<rparr>)\<rparr>"





text \<open>A report with three sections of the metric, and one in which a value comes back.\<close>

definition report3 :: string where
  "report3 = ''[Current rps=10]'' @ [newline] @ ''[Current rps=30]'' @ [newline]
               @ ''[Current rps=45]'' @ [newline]"

definition report_repeat :: string where
  "report_repeat = ''[Current rps=10]'' @ [newline] @ ''[Current rps=30]'' @ [newline]
               @ ''[Current rps=10]'' @ [newline]"

definition w_no_rps :: world where
  "w_no_rps = w_low\<lparr>http_get := (\<lambda>k. Inr \<lparr>status_code = 200, resp_text = ''[Test]''\<rparr>)\<rparr>"

definition w_report3 :: world where
  "w_report3 = w_low\<lparr>http_get := (\<lambda>k. Inr \<lparr>status_code = 200, resp_text = report3\<rparr>)\<rparr>"

definition w_repeat :: world where
  "w_repeat = w_low\<lparr>http_get := (\<lambda>k. Inr \<lparr>status_code = 200, resp_text = report_repeat\<rparr>)\<rparr>"

text \<open>The section headers of a report in the order of the text (none for a rejected text).\<close>

definition headers_of :: "string \<Rightarrow> string list" where
  "headers_of txt = (case read_string txt of Inl e \<Rightarrow> [] | Inr st \<Rightarrow> headers st)"

text \<open>
  Worlds that differ in what the \<open>k\<close>-th oracle call answers. Counted from the empty
  environment, the first iteration of the loop makes the calls 0 (log fetch of the
  completion check), 1 (log fetch of the metric), 2 (clock), 3 (\<^verbatim>\<open>create_instances\<close>),
  4 (\<^verbatim>\<open>wait_until_running\<close>), 5 and 6 (the two \<^verbatim>\<open>reload\<close>), 7 and following (health
  probes), then the registration and the clock.
  In \<open>w_probe_fail\<close> no health probe is answered; in \<open>w_reject\<close> the registration
  (call 8) is answered 500; in \<open>w_ticking\<close> the clock advances by one second per oracle
  call; in \<open>w_quota_then_done\<close> EC2 refuses to create instances and the log fetched by
  call 4, the completion check of the second iteration, shows the test finished.
\<close>

definition w_probe_fail :: world where
  "w_probe_fail = w_low\<lparr>http_get :=
     (\<lambda>k. if k < 7 then Inr \<lparr>status_code = 200, resp_text = ''[Current rps=10]''\<rparr>
          else Inl (PyExn ReqConnectionError ''refused''))\<rparr>"

definition w_reject :: world where
  "w_reject = w_low\<lparr>http_get :=
     (\<lambda>k. if k = 8 then Inr \<lparr>status_code = 500, resp_text = ''busy''\<rparr>
          else Inr \<lparr>status_code = 200, resp_text = ''[Current rps=10]''\<rparr>)\<rparr>"

definition w_ticking :: world where
  "w_ticking = w_low\<lparr>now := (\<lambda>k. 200000000 + 1000000 * int k)\<rparr>"

definition w_quota_then_done :: world where
  "w_quota_then_done = w_quota\<lparr>http_get :=
     (\<lambda>k. if k = 4 then Inr \<lparr>status_code = 200, resp_text = ''[Test finished]''\<rparr>
          else Inr \<lparr>status_code = 200, resp_text = ''[Current rps=10]''\<rparr>)\<rparr>"

text \<open>Python's \<^verbatim>\<open>float()\<close> on the literals of these reports.\<close>

definition pf_table :: "string \<Rightarrow> pyfloat option" where
  "pf_table t =
     (if t = ''10'' then Some (Finite 10)
      else if t = ''30'' then Some (Finite 30)
      else if t = ''45'' then Some (Finite 45)
      else if t = ''80'' then Some (Finite 80)
      else None)"

definition cfg0 :: config where
  "cfg0 = \<lparr>load_generator_ami = ''ami-lg'', web_service_ami = ''ami-ws'', instance_type = ''m5.large''\<rparr>"

text \<open>
  The first iteration of the loop from the empty environment, with the cooldown
  timestamp at 0: the state in which its scale-out attempt starts, and the cooldown
  timestamp it leaves to the loop.
\<close>

definition first_attempt_state :: "world \<Rightarrow> env" where
  "first_attempt_state w =
     print MsgRpsLow
       (snd (fetch_metrics pf_table w ''lg'' ''log'' locals0
               (snd (is_test_complete w ''lg'' ''log'' env0))))"

definition first_cooldown :: "world \<Rightarrow> datetime" where
  "first_cooldown w =
     last_launch_time (fst (snd (iteration pf_table cfg0 w ''lg'' ''log'' ''sg'' locals0 env0)))"

text \<open>Events that neither create an instance nor belong to the teardown.\<close>

definition plain :: "event \<Rightarrow> bool" where
  "plain e = (\<not> is_create e \<and> \<not> is_terminate e \<and> \<not> is_delete_sg e)"

text \<open>Events of the run before the teardown.\<close>

definition no_teardown :: "event \<Rightarrow> bool" where
  "no_teardown e = (\<not> is_terminate e \<and> \<not> is_delete_sg e)"

text \<open>\<open>created s s'\<close>: from \<open>s\<close> to \<open>s'\<close> exactly one instance creation was requested, first of all.\<close>

definition created :: "env \<Rightarrow> env \<Rightarrow> bool" where
  "created s s' =
     (case new_events s s' of
        [] \<Rightarrow> False
      | e # evs \<Rightarrow> take (length (trace s)) (trace s') = trace s \<and> is_create e \<and> list_all plain evs)"

section \<open>Facts about the environment\<close>

lemma probes_simps [simp]:
  "probes (trace (print m s)) = probes (trace s)"
  "probes (trace (sleep n s)) = probes (trace s)"
  "probes (trace (extcall (EvGet u) s)) = Suc (probes (trace s))"
  by (simp_all add: probes_def print_def sleep_def emit_def extcall_def)

lemma calls_simps [simp]:
  "calls (print m s) = calls s"
  "calls (sleep n s) = calls s"
  "calls (extcall e s) = Suc (calls s)"
  by (simp_all add: print_def sleep_def emit_def extcall_def)

section \<open>Health probing: the attempt budget\<close>

lemma wait_loop_done:
  "\<not> r < 40 \<Longrightarrow> wait_loop w d u r s = (Inr False, print (MsgNotReady d) s)"
  by (subst wait_loop.simps) simp

lemma wait_loop_step:
  "r < 40 \<Longrightarrow> wait_loop w d u r s =
     (case http_get w (calls s) of
        Inr resp \<Rightarrow>
          if status_code resp = 200 then (Inr True, print (MsgReady d) (extcall (EvGet u) s))
          else wait_loop w d u (Suc r) (sleep 2 (extcall (EvGet u) s))
      | Inl e \<Rightarrow>
          if is_RequestException e
          then wait_loop w d u (Suc r) (sleep 2 (extcall (EvGet u) s))
          else (Inl e, extcall (EvGet u) s))"
  by (subst wait_loop.simps) (simp add: requests_get_def split: sum.splits)







section \<open>Facts about traces\<close>

lemma adds_iff: "adds Q s s' \<longleftrightarrow> (\<exists>evs. trace s' = trace s @ evs \<and> list_all Q evs)"
proof
  assume a: "adds Q s s'"
  then have "trace s' = trace s @ new_events s s'"
    unfolding adds_def new_events_def by (metis append_take_drop_id)
  with a show "\<exists>evs. trace s' = trace s @ evs \<and> list_all Q evs"
    unfolding adds_def by blast
next
  assume "\<exists>evs. trace s' = trace s @ evs \<and> list_all Q evs"
  then show "adds Q s s'" by (auto simp: adds_def new_events_def)
qed

lemma created_iff:
  "created s s' \<longleftrightarrow> (\<exists>e evs. trace s' = trace s @ e # evs \<and> is_create e \<and> list_all plain evs)"
proof
  assume c: "created s s'"
  then obtain e evs where ne: "new_events s s' = e # evs"
    by (auto simp: created_def split: list.splits)
  with c have t: "take (length (trace s)) (trace s') = trace s" and p: "is_create e" "list_all plain evs"
    by (auto simp: created_def)
  have "trace s' = take (length (trace s)) (trace s') @ new_events s s'"
    by (simp add: new_events_def)
  with t ne have "trace s' = trace s @ e # evs" by simp
  with p show "\<exists>e evs. trace s' = trace s @ e # evs \<and> is_create e \<and> list_all plain evs" by blast
next
  assume "\<exists>e evs. trace s' = trace s @ e # evs \<and> is_create e \<and> list_all plain evs"
  then show "created s s'" by (auto simp: created_def new_events_def)
qed

lemma adds_refl: "adds Q s s"
  by (simp add: adds_iff)

lemma adds_mono: "adds Q s s' \<Longrightarrow> (\<And>e. Q e \<Longrightarrow> R e) \<Longrightarrow> adds R s s'"
  by (auto simp: adds_iff list_all_iff)

lemma adds_count: "adds Q s s' \<Longrightarrow> (\<And>e. Q e \<Longrightarrow> \<not> P e) \<Longrightarrow> count_ev P s' = count_ev P s"
  by (auto simp: adds_iff count_ev_def list_all_iff)

lemma adds_emit: "adds Q s0 s \<Longrightarrow> Q e \<Longrightarrow> adds Q s0 (emit e s)"
  by (auto simp: adds_iff emit_def)

lemma adds_extcall: "adds Q s0 s \<Longrightarrow> Q e \<Longrightarrow> adds Q s0 (extcall e s)"
  by (auto simp: adds_iff extcall_def)

lemma adds_print: "adds Q s0 s \<Longrightarrow> Q (EvPrint m) \<Longrightarrow> adds Q s0 (print m s)"
  by (simp add: print_def adds_emit)

lemma adds_sleep: "adds Q s0 s \<Longrightarrow> Q (EvSleep n) \<Longrightarrow> adds Q s0 (sleep n s)"
  by (simp add: sleep_def adds_emit)

lemma adds_open_w: "adds Q s0 s \<Longrightarrow> Q (EvOpenW f) \<Longrightarrow> adds Q s0 (open_w f s)"
  by (auto simp: adds_iff open_w_def emit_def)

lemma adds_file_write: "adds Q s0 s \<Longrightarrow> adds Q s0 (file_write f t s)"
  by (auto simp: adds_iff file_write_def)

lemmas adds_prims = adds_emit adds_extcall adds_print adds_sleep adds_open_w adds_file_write

lemma plain_simps [simp]:
  "plain (EvGet u)" "plain EvNow" "plain (EvSleep n)" "plain (EvPrint m)" "plain (EvOpenW f)"
  "plain (EvOpenR f)" "plain EvCreateSG" "plain (EvAuthorize g)" "plain (EvWaitRunning i)"
  "plain (EvReload i)" "plain (EvApi c)" "plain (EvDescribe c d)" "plain (EvDescribeInstances b)"
  "\<not> plain (EvCreateInstances a g)" "\<not> plain (EvTerminate ids)"
  "\<not> plain (EvDeleteSG g)"
  by (simp_all add: plain_def)

lemma count_ev_simps [simp]:
  "count_ev P (emit e s) = count_ev P s + (if P e then 1 else 0)"
  "count_ev P (extcall e s) = count_ev P s + (if P e then 1 else 0)"
  "count_ev P (print m s) = count_ev P s + (if P (EvPrint m) then 1 else 0)"
  "count_ev P (sleep n s) = count_ev P s + (if P (EvSleep n) then 1 else 0)"
  "count_ev P (open_w f s) = count_ev P s + (if P (EvOpenW f) then 1 else 0)"
  "count_ev P (file_write f t s) = count_ev P s"
  by (simp_all add: count_ev_def emit_def extcall_def print_def sleep_def open_w_def file_write_def)

lemma created_then: "created s0 s \<Longrightarrow> adds plain s s' \<Longrightarrow> created s0 s'"
  by (auto simp: created_iff adds_iff)

lemma created_count: "created s s' \<Longrightarrow> count_ev is_create s' = Suc (count_ev is_create s)"
  by (auto simp: created_iff count_ev_def list_all_iff plain_def)

section \<open>What each function adds to the trace\<close>

lemma adds_wait_loop:
  "adds plain s0 s \<Longrightarrow> adds plain s0 (snd (wait_loop w d u r s))"
proof (induction "40 - r" arbitrary: r s)
  case 0
  then show ?case by (simp add: wait_loop_done adds_print)
next
  case (Suc n)
  then have lt: "r < 40" and n: "n = 40 - Suc r" by arith+
  have ih: "adds plain s0 s' \<Longrightarrow> adds plain s0 (snd (wait_loop w d u (Suc r) s'))" for s'
    using Suc.hyps(1) [OF n] .
  from Suc.prems have e: "adds plain s0 (extcall (EvGet u) s)" by (simp add: adds_extcall)
  then have e2: "adds plain s0 (sleep 2 (extcall (EvGet u) s))" by (simp add: adds_sleep)
  show ?case
    using lt ih [OF e2] e
    by (auto simp add: wait_loop_step adds_print split: sum.splits)
qed

lemma adds_wait_for_server_health:
  "adds plain s0 s \<Longrightarrow> adds plain s0 (snd (wait_for_server_health w d s))"
  by (simp add: wait_for_server_health_def adds_wait_loop adds_print)

lemma adds_is_test_complete:
  "adds plain s0 s \<Longrightarrow> adds plain s0 (snd (is_test_complete w lg lname s))"
  by (auto simp add: is_test_complete_def requests_get_def Let_def intro!: adds_prims split: sum.splits)

lemma adds_get_rps:
  "adds plain s0 s \<Longrightarrow> adds plain s0 (snd (get_rps pf w lg lname s))"
  by (auto simp add: get_rps_def requests_get_def intro!: adds_prims split: sum.splits)

lemma adds_fetch_metrics:
  "adds plain s0 s \<Longrightarrow> adds plain s0 (snd (fetch_metrics pf w lg lname l s))"
  by (auto simp add: fetch_metrics_def datetime_now_def Let_def split_beta
      intro!: adds_prims adds_get_rps split: sum.splits)

lemma created_create_instance:
  "created s (snd (create_instance w ami g s))"
proof -
  have a: "created s (extcall (EvCreateInstances ami g) s)"
    by (simp add: created_iff extcall_def)
  show ?thesis
    by (auto simp add: create_instance_def ec2_create_instances_def instance_wait_until_running_def
        instance_reload_def
        intro!: created_then [OF a] adds_prims adds_refl split: sum.splits option.splits)
qed

lemma created_attempt:
  "created s (snd (snd (attempt cfg w lg g l s)))"
proof -
  note c = created_create_instance [of s w "web_service_ami cfg" g]
  show ?thesis
    unfolding attempt_def
    by (auto simp add: split_beta Let_def instance_reload_def requests_get_def datetime_now_def
        intro!: created_then [OF c] adds_prims adds_refl adds_wait_for_server_health
        split: sum.splits option.splits)
qed

section \<open>The scale-out decision\<close>

lemma count_is_test_complete:
  "count_ev is_create (snd (is_test_complete w lg lname s)) = count_ev is_create s"
  by (rule adds_count [OF adds_is_test_complete [OF adds_refl]]) (simp add: plain_def)

lemma count_get_rps:
  "count_ev is_create (snd (get_rps pf w lg lname s)) = count_ev is_create s"
  by (rule adds_count [OF adds_get_rps [OF adds_refl]]) (simp add: plain_def)

lemma count_attempt:
  "count_ev is_create (snd (snd (attempt cfg w lg g l s))) = Suc (count_ev is_create s)"
  by (rule created_count [OF created_attempt])

lemma loop_body_count:
  assumes "get_rps pf w lg lname s = (Inr rps, s2)"
  shows "count_ev is_create (snd (snd (loop_body pf cfg w lg lname g l s))) =
     count_ev is_create s +
       (if num_lt rps 50 \<and> total_seconds (now w (calls s2) - last_launch_time l) > 100
        then 1 else 0)"
proof -
  from assms count_get_rps [of pf w lg lname s]
  have c2: "count_ev is_create s2 = count_ev is_create s" by simp
  show ?thesis
    using assms c2
    by (simp add: loop_body_def fetch_metrics_def datetime_now_def Let_def split_beta
        count_attempt split: option.splits)
qed

text \<open>
  Claim C1. In an iteration whose completion check returned False and whose metric fetch
  returned the value \<open>rps\<close>, the number of instance creations requested grows by one
  if \<open>rps < 50\<close> and the time since \<open>last_launch_time\<close> is more than 100 seconds, and
  does not grow otherwise: an attempt is initiated if and only if both conditions hold.
\<close>

theorem scale_out_decision:
  assumes "is_test_complete w lg lname s = (Inr False, s1)"
      and "get_rps pf w lg lname s1 = (Inr rps, s2)"
  shows "count_ev is_create (snd (snd (iteration pf cfg w lg lname g l s))) =
     count_ev is_create s +
       (if num_lt rps 50 \<and> total_seconds (now w (calls s2) - last_launch_time l) > 100
        then 1 else 0)"
proof -
  from assms(1) count_is_test_complete [of w lg lname s]
  have c1: "count_ev is_create s1 = count_ev is_create s" by simp
  have "snd (snd (iteration pf cfg w lg lname g l s)) = snd (snd (loop_body pf cfg w lg lname g l s1))"
    using assms(1) by (simp add: iteration_def split: prod.splits sum.splits)
  with loop_body_count [OF assms(2), of cfg g l] c1 show ?thesis by simp
qed



lemma adds_trans: "adds Q s s1 \<Longrightarrow> adds Q s1 s2 \<Longrightarrow> adds Q s s2"
  by (auto simp: adds_iff)

lemma adds_lift:
  "adds Q s0 s \<Longrightarrow> adds plain s s' \<Longrightarrow> (\<And>e. plain e \<Longrightarrow> Q e) \<Longrightarrow> adds Q s0 s'"
  by (blast intro: adds_trans adds_mono)

lemma no_teardown_plain: "plain e \<Longrightarrow> no_teardown e"
  by (simp add: plain_def no_teardown_def)

lemma no_teardown_simps [simp]:
  "no_teardown (EvGet u)" "no_teardown EvNow" "no_teardown (EvSleep n)" "no_teardown (EvPrint m)"
  "no_teardown (EvOpenW f)" "no_teardown (EvOpenR f)" "no_teardown EvCreateSG"
  "no_teardown (EvAuthorize g)" "no_teardown (EvWaitRunning i)" "no_teardown (EvReload i)"
  "no_teardown (EvCreateInstances a g)" "no_teardown (EvApi c)" "no_teardown (EvDescribe c d)"
  "no_teardown (EvDescribeInstances b)"
  "\<not> no_teardown (EvTerminate ids)"
  "\<not> no_teardown (EvDeleteSG g)"
  by (simp_all add: no_teardown_def)

lemma no_teardown_create: "is_create e \<Longrightarrow> no_teardown e"
  by (cases e) simp_all

lemma adds_created:
  "adds no_teardown s0 s \<Longrightarrow> created s s' \<Longrightarrow> adds no_teardown s0 s'"
  by (auto simp: created_iff adds_iff list_all_iff no_teardown_plain no_teardown_create)


lemma nt_fetch_metrics:
  "adds no_teardown s0 s \<Longrightarrow> adds no_teardown s0 (snd (fetch_metrics pf w lg lname l s))"
  by (erule adds_lift [OF _ adds_fetch_metrics [OF adds_refl]]) (rule no_teardown_plain)


lemma nt_attempt:
  "adds no_teardown s0 s \<Longrightarrow> adds no_teardown s0 (snd (snd (attempt cfg w lg g l s)))"
  by (erule adds_created) (rule created_attempt)

lemma nt_loop_body:
  assumes "adds no_teardown s0 s"
  shows "adds no_teardown s0 (snd (snd (loop_body pf cfg w lg lname g l s)))"
proof -
  note f = nt_fetch_metrics [OF assms, of pf w lg lname l]
  have a: "adds no_teardown s0 (snd (snd (attempt cfg w lg g l
              (print MsgRpsLow (snd (fetch_metrics pf w lg lname l s))))))"
    by (rule nt_attempt) (simp add: adds_print f)
  show ?thesis
    using f a
    by (auto simp add: loop_body_def split_beta intro!: adds_prims split: sum.splits option.splits)
qed



theorem scale_out_decision_witness:
  "is_test_complete w_low ''lg'' ''log'' env0 =
     (Inr False, snd (is_test_complete w_low ''lg'' ''log'' env0)) \<and>
   get_rps pf_table w_low ''lg'' ''log'' (snd (is_test_complete w_low ''lg'' ''log'' env0)) =
     (Inr (PyFloat (Finite 10)),
      snd (get_rps pf_table w_low ''lg'' ''log'' (snd (is_test_complete w_low ''lg'' ''log'' env0)))) \<and>
   count_ev is_create (snd (snd (iteration pf_table cfg0 w_low ''lg'' ''log'' ''sg'' locals0 env0))) = 1 \<and>
   get_rps pf_table w_high ''lg'' ''log'' (snd (is_test_complete w_high ''lg'' ''log'' env0)) =
     (Inr (PyFloat (Finite 80)),
      snd (get_rps pf_table w_high ''lg'' ''log'' (snd (is_test_complete w_high ''lg'' ''log'' env0)))) \<and>
   count_ev is_create (snd (snd (iteration pf_table cfg0 w_high ''lg'' ''log'' ''sg'' locals0 env0))) = 0"
proof -
  have c: "fst (is_test_complete w_low ''lg'' ''log'' env0) = Inr False" by code_simp
  have r: "fst (get_rps pf_table w_low ''lg'' ''log'' (snd (is_test_complete w_low ''lg'' ''log'' env0)))
             = Inr (PyFloat (Finite 10))" by code_simp
  have h1: "is_test_complete w_low ''lg'' ''log'' env0 =
     (Inr False, snd (is_test_complete w_low ''lg'' ''log'' env0))"
    using c by (metis prod.collapse)
  have h2: "get_rps pf_table w_low ''lg'' ''log'' (snd (is_test_complete w_low ''lg'' ''log'' env0)) =
     (Inr (PyFloat (Finite 10)),
      snd (get_rps pf_table w_low ''lg'' ''log'' (snd (is_test_complete w_low ''lg'' ''log'' env0))))"
    using r by (metis prod.collapse)
  have c': "fst (is_test_complete w_high ''lg'' ''log'' env0) = Inr False" by code_simp
  have r': "fst (get_rps pf_table w_high ''lg'' ''log'' (snd (is_test_complete w_high ''lg'' ''log'' env0)))
             = Inr (PyFloat (Finite 80))" by code_simp
  have h1': "is_test_complete w_high ''lg'' ''log'' env0 =
     (Inr False, snd (is_test_complete w_high ''lg'' ''log'' env0))"
    using c' by (metis prod.collapse)
  have h2': "get_rps pf_table w_high ''lg'' ''log'' (snd (is_test_complete w_high ''lg'' ''log'' env0)) =
     (Inr (PyFloat (Finite 80)),
      snd (get_rps pf_table w_high ''lg'' ''log'' (snd (is_test_complete w_high ''lg'' ''log'' env0))))"
    using r' by (metis prod.collapse)
  have z: "count_ev is_create env0 = 0" by (simp add: count_ev_def env0_def)
  have n: "now w_low k = 200000000" "now w_high k = 200000000" for k
    by (simp_all add: w_low_def w_high_def)
  have l: "last_launch_time locals0 = 0" by (simp add: locals0_def)
  show ?thesis
    using scale_out_decision [OF h1 h2, of cfg0 "''sg''" locals0]
      scale_out_decision [OF h1' h2', of cfg0 "''sg''" locals0] h1 h2 h2'
    by (simp add: z n l total_seconds_def)
qed

section \<open>Evaluating runs in concrete worlds\<close>

lemmas env_defs = emit_def extcall_def print_def sleep_def requests_get_def datetime_now_def
  open_w_def file_write_def env0_def log_url_def add_url_def
  ec2_create_instances_def instance_wait_until_running_def instance_reload_def
  instances_terminate_def security_group_delete_def ec2_create_security_group_def
  sg_authorize_ingress_def

lemmas parse_defs = rps_of_text_def to_rps_def read_sections_def read_string_def read_line_def strip_def is_space_def
  sect_header_def cp0_def pf_table_def newline_def is_delim_def

lemmas run_defs = is_test_complete_def get_rps_def fetch_metrics_def loop_body_def iteration_def
  attempt_def create_instance_def wait_for_server_health_def total_seconds_def locals0_def cfg0_def
  Let_def

section \<open>The order of the checks\<close>

lemma trace_is_test_complete:
  "trace (snd (is_test_complete w lg lname s)) =
     trace s @ [EvOpenW (lname @ ''.log''), EvGet (log_url lg lname)]"
  by (simp add: is_test_complete_def requests_get_def Let_def open_w_def emit_def extcall_def
      file_write_def split: sum.splits)

lemma new_events_append: "trace s' = trace s @ evs \<Longrightarrow> new_events s s' = evs"
  by (simp add: new_events_def)

text \<open>
  Claim C3. Every iteration begins with the completion check: the first events it adds to
  the trace are the opening of the log file and the fetch of the log, before the metric
  fetch and anything else. When the check returns True the iteration adds nothing else:
  the loop ends in the state the check left, with the local variables unchanged, no metric
  fetch and no instance creation.
\<close>

theorem completion_check_first:
  "(\<exists>evs. new_events s (snd (snd (iteration pf cfg w lg lname g l s))) =
       EvOpenW (lname @ ''.log'') # EvGet (log_url lg lname) # evs) \<and>
   (fst (is_test_complete w lg lname s) = Inr True \<longrightarrow>
      iteration pf cfg w lg lname g l s = (Finished, l, snd (is_test_complete w lg lname s)) \<and>
      main_loop (Suc n) pf cfg w lg lname g l s =
        Some (Inr (), l, snd (is_test_complete w lg lname s)) \<and>
      new_events s (snd (snd (iteration pf cfg w lg lname g l s))) =
        [EvOpenW (lname @ ''.log''), EvGet (log_url lg lname)] \<and>
      count_ev is_create (snd (snd (iteration pf cfg w lg lname g l s))) = count_ev is_create s)"
proof -
  let ?s1 = "snd (is_test_complete w lg lname s)"
  let ?s' = "snd (snd (iteration pf cfg w lg lname g l s))"
  have "adds no_teardown ?s1 ?s1" by (rule adds_refl)
  from nt_loop_body [OF this, of pf cfg w lg lname g l]
  have lb: "adds no_teardown ?s1 (snd (snd (loop_body pf cfg w lg lname g l ?s1)))" .
  have "adds no_teardown ?s1 ?s'"
    using lb by (auto simp add: iteration_def split_beta adds_refl split: sum.splits)
  then obtain evs where "trace ?s' = trace ?s1 @ evs" by (auto simp: adds_iff)
  then have "trace ?s' = trace s @ EvOpenW (lname @ ''.log'') # EvGet (log_url lg lname) # evs"
    by (simp add: trace_is_test_complete)
  then have first: "\<exists>evs. new_events s ?s' =
       EvOpenW (lname @ ''.log'') # EvGet (log_url lg lname) # evs"
    by (simp add: new_events_def)
  have fin: "iteration pf cfg w lg lname g l s = (Finished, l, ?s1)"
    if "fst (is_test_complete w lg lname s) = Inr True"
    using that by (simp add: iteration_def split_beta)
  have rest: "new_events s ?s1 = [EvOpenW (lname @ ''.log''), EvGet (log_url lg lname)]"
    by (simp add: new_events_def trace_is_test_complete)
  have cnt: "count_ev is_create ?s1 = count_ev is_create s"
    by (rule count_is_test_complete)
  show ?thesis
    using first fin rest cnt by auto
qed

theorem completion_check_first_witness:
  "fst (is_test_complete w_done ''lg'' ''log'' env0) = Inr True \<and>
   iteration pf_table cfg0 w_done ''lg'' ''log'' ''sg'' locals0 env0 =
     (Finished, locals0, snd (is_test_complete w_done ''lg'' ''log'' env0)) \<and>
   main_loop (Suc 0) pf_table cfg0 w_done ''lg'' ''log'' ''sg'' locals0 env0 =
     Some (Inr (), locals0, snd (is_test_complete w_done ''lg'' ''log'' env0)) \<and>
   new_events env0 (snd (snd (iteration pf_table cfg0 w_done ''lg'' ''log'' ''sg'' locals0 env0))) =
     [EvOpenW (''log'' @ ''.log''), EvGet (log_url ''lg'' ''log'')]"
proof -
  have d: "fst (is_test_complete w_done ''lg'' ''log'' env0) = Inr True" by code_simp
  show ?thesis
    using completion_check_first [of env0 pf_table cfg0 w_done "''lg''" "''log''" "''sg''" locals0 0] d
    by blast
qed

section \<open>The sleep between iterations\<close>

lemma last_simps [simp]:
  "last (trace (sleep n s)) = EvSleep n"
  "last (trace (print m s)) = EvPrint m"
  by (simp_all add: sleep_def print_def emit_def)

lemma attempt_NoDns_last:
  "fst (attempt cfg w lg g l s) = NoDns \<Longrightarrow>
     last (trace (snd (snd (attempt cfg w lg g l s)))) = EvPrint MsgNoDns"
  by (auto simp add: attempt_def Let_def split_beta split: sum.splits if_splits)

text \<open>
  Claim C6, as the code has it. A pass through the loop body that returns to the loop
  condition ends with \<^verbatim>\<open>time.sleep(1)\<close> on every branch but one: no scale-out triggered,
  successful registration, an exception caught by the \<^verbatim>\<open>except\<close> clause, failed health
  probe and rejected registration all end with the sleep of one second; when the new
  instance has no DNS name, \<^verbatim>\<open>continue\<close> skips the sleep and the pass ends with the
  message about the missing name.
\<close>

theorem loop_sleep_unless_continue:
  assumes "loop_body pf cfg w lg lname g l s = (Inr u, l', s')"
  shows "last (trace s') =
           (if no_dns_pass pf cfg w lg lname g l s then EvPrint MsgNoDns else EvSleep 1)"
proof (cases "fetch_metrics pf w lg lname l s")
  case (Pair r s3)
  show ?thesis
  proof (cases r)
    case (Inl e)
    with Pair assms show ?thesis by (simp add: loop_body_def)
  next
    case (Inr m)
    obtain rps td where m: "m = (rps, td)" by (cases m)
    show ?thesis
    proof (cases "num_lt rps 50 \<and> td > 100")
      case False
      with Pair Inr m assms show ?thesis
        by (auto simp add: loop_body_def no_dns_pass_def)
    next
      case True
      obtain out l1 s4 where a: "attempt cfg w lg g l (print MsgRpsLow s3) = (out, l1, s4)"
        by (cases "attempt cfg w lg g l (print MsgRpsLow s3)") auto
      show ?thesis
      proof (cases "out = NoDns")
        case nd: True
        from attempt_NoDns_last [of cfg w lg g l "print MsgRpsLow s3"] a nd
        have "last (trace s4) = EvPrint MsgNoDns" by simp
        with Pair Inr m True a nd assms show ?thesis
          by (auto simp add: loop_body_def no_dns_pass_def)
      next
        case nn: False
        with Pair Inr m True a assms show ?thesis
          by (cases "caught out") (auto simp add: loop_body_def no_dns_pass_def)
      qed
    qed
  qed
qed

theorem loop_sleep_unless_continue_witness:
  "loop_body pf_table cfg0 w_low ''lg'' ''log'' ''sg'' locals0 env0 =
     (Inr (), fst (snd (loop_body pf_table cfg0 w_low ''lg'' ''log'' ''sg'' locals0 env0)),
      snd (snd (loop_body pf_table cfg0 w_low ''lg'' ''log'' ''sg'' locals0 env0))) \<and>
   \<not> no_dns_pass pf_table cfg0 w_low ''lg'' ''log'' ''sg'' locals0 env0 \<and>
   last (trace (snd (snd (loop_body pf_table cfg0 w_low ''lg'' ''log'' ''sg'' locals0 env0)))) = EvSleep 1"
proof -
  have r: "fst (loop_body pf_table cfg0 w_low ''lg'' ''log'' ''sg'' locals0 env0) = Inr ()"
    by (simp add: env_defs parse_defs run_defs w_low_def wait_loop_step)
  have h: "loop_body pf_table cfg0 w_low ''lg'' ''log'' ''sg'' locals0 env0 =
     (Inr (), fst (snd (loop_body pf_table cfg0 w_low ''lg'' ''log'' ''sg'' locals0 env0)),
      snd (snd (loop_body pf_table cfg0 w_low ''lg'' ''log'' ''sg'' locals0 env0)))"
    using r by (metis prod.collapse)
  have n: "\<not> no_dns_pass pf_table cfg0 w_low ''lg'' ''log'' ''sg'' locals0 env0"
    by (simp add: no_dns_pass_def env_defs parse_defs run_defs w_low_def wait_loop_step)
  show ?thesis
    using loop_sleep_unless_continue [OF h] h n by simp
qed

theorem loop_sleep_counterexample:
  "fst (iteration pf_table cfg0 w_nodns ''lg'' ''log'' ''sg'' locals0 env0) = Again \<and>
   count_ev is_sleep (snd (snd (iteration pf_table cfg0 w_nodns ''lg'' ''log'' ''sg'' locals0 env0))) = 0 \<and>
   last (trace (snd (snd (iteration pf_table cfg0 w_nodns ''lg'' ''log'' ''sg'' locals0 env0))))
     = EvPrint MsgNoDns"
  by (simp add: env_defs parse_defs run_defs w_low_def w_nodns_def count_ev_def)

section \<open>Pairs\<close>

lemma pair_fst: "fst p = a \<Longrightarrow> p = (a, snd p)"
  by (cases p) simp

section \<open>Teardown\<close>






lemma mem_trace_simps [simp]:
  "e \<in> set (trace (print m s)) \<longleftrightarrow> e = EvPrint m \<or> e \<in> set (trace s)"
  "e \<in> set (trace (sleep k s)) \<longleftrightarrow> e = EvSleep k \<or> e \<in> set (trace s)"
  "e \<in> set (trace (extcall e' s)) \<longleftrightarrow> e = e' \<or> e \<in> set (trace s)"
  by (auto simp add: print_def sleep_def emit_def extcall_def)








section \<open>Facts about strings\<close>

lemma startswith_iff: "startswith p s \<longleftrightarrow> (\<exists>t. s = p @ t)"
  by (induction p s rule: startswith.induct) auto

lemma contains_iff: "contains p s \<longleftrightarrow> (\<exists>a b. s = a @ p @ b)"
proof (induction s)
  case Nil
  then show ?case by auto
next
  case (Cons c cs)
  show ?case
  proof
    assume "contains p (c # cs)"
    then consider "startswith p (c # cs)" | "contains p cs" by auto
    then show "\<exists>a b. c # cs = a @ p @ b"
    proof cases
      case 1
      then obtain t where "c # cs = p @ t" by (auto simp: startswith_iff)
      then have "c # cs = [] @ p @ t" by simp
      then show ?thesis by blast
    next
      case 2
      with Cons obtain a b where "cs = a @ p @ b" by blast
      then have "c # cs = (c # a) @ p @ b" by simp
      then show ?thesis by blast
    qed
  next
    assume "\<exists>a b. c # cs = a @ p @ b"
    then obtain a b where ab: "c # cs = a @ p @ b" by blast
    show "contains p (c # cs)"
    proof (cases a)
      case Nil
      with ab have "startswith p (c # cs)" by (auto simp: startswith_iff)
      then show ?thesis by simp
    next
      case (Cons x a')
      with ab have "cs = a' @ p @ b" by simp
      with Cons.IH have "contains p cs" by blast
      then show ?thesis by simp
    qed
  qed
qed

section \<open>The log identifier\<close>

lemma take_two: "length p = n \<Longrightarrow> take (n + length c) (p @ c @ z) = p @ c"
  by simp

lemma drop_one: "length p = n \<Longrightarrow> drop n (p @ z) = z"
  by simp

lemma length_name: "length ''name='' = 5"
  by simp

lemma longest_log_sound:
  "longest_log xs = Some p \<Longrightarrow> \<exists>u t. p = u @ ''log'' \<and> xs = p @ t"
proof (induction xs arbitrary: p)
  case Nil
  then show ?case by simp
next
  case (Cons c cs)
  show ?case
  proof (cases "longest_log cs")
    case None
    with Cons.prems have sw: "startswith ''log'' (c # cs)" and p: "p = ''log''"
      by (auto split: if_splits)
    from sw obtain t where "c # cs = ''log'' @ t" unfolding startswith_iff by blast
    with p have "p = [] @ ''log'' \<and> c # cs = p @ t" by simp
    then show ?thesis by blast
  next
    case (Some q)
    with Cons.prems have p: "p = c # q" by simp
    from Cons.IH [OF Some] obtain u t where "q = u @ ''log''" "cs = q @ t" by blast
    with p have "p = (c # u) @ ''log'' \<and> c # cs = p @ t" by simp
    then show ?thesis by blast
  qed
qed

lemma longest_log_complete:
  "xs = u @ ''log'' @ t \<Longrightarrow> \<exists>p. longest_log xs = Some p \<and> length u + 3 \<le> length p"
proof (induction xs arbitrary: u)
  case Nil
  then show ?case by simp
next
  case (Cons c cs)
  show ?case
  proof (cases u)
    case Nil
    with Cons.prems have sw: "startswith ''log'' (c # cs)"
      unfolding startswith_iff by auto
    show ?thesis
    proof (cases "longest_log cs")
      case None
      with sw Nil show ?thesis by simp
    next
      case (Some q)
      from longest_log_sound [OF Some] have "3 \<le> length q" by auto
      with Some Nil show ?thesis by simp
    qed
  next
    case (Cons x u')
    with Cons.prems have "cs = u' @ ''log'' @ t" by simp
    from Cons.IH [OF this] obtain q where "longest_log cs = Some q" "length u' + 3 \<le> length q"
      by blast
    with Cons show ?thesis by simp
  qed
qed

lemma match_here_sound:
  assumes "match_here s = Some c"
  shows "match_at s 0 c"
proof -
  from assms have sw: "startswith ''name='' s"
    and ll: "longest_log (takeWhile (\<lambda>x. x \<noteq> newline) (drop 5 s)) = Some c"
    by (auto simp: match_here_def split: if_splits)
  from sw obtain rest where s: "s = ''name='' @ rest" unfolding startswith_iff by blast
  then have d: "drop 5 s = rest" by simp
  from longest_log_sound [OF ll] d obtain u t where
    c: "c = u @ ''log''" and tw: "takeWhile (\<lambda>x. x \<noteq> newline) rest = c @ t" by auto
  have "set (takeWhile (\<lambda>x. x \<noteq> newline) rest) \<subseteq> {x. x \<noteq> newline}"
    by (auto dest: set_takeWhileD)
  with tw have nn: "newline \<notin> set c" by auto
  with c have cap: "is_capture c" by (auto simp: is_capture_def)
  have "rest = takeWhile (\<lambda>x. x \<noteq> newline) rest @ dropWhile (\<lambda>x. x \<noteq> newline) rest"
    by simp
  with tw have r: "rest = c @ t @ dropWhile (\<lambda>x. x \<noteq> newline) rest" by simp
  have tk: "take (5 + length c) s = ''name='' @ c"
    by (subst s, subst r) (rule take_two [OF length_name])
  have len: "5 + length c \<le> length s"
    by (subst s, subst r) simp
  from cap tk len show ?thesis by (simp add: match_at_def)
qed

lemma match_here_complete:
  assumes "match_at s 0 c'"
  shows "\<exists>c. match_here s = Some c \<and> length c' \<le> length c"
proof -
  from assms obtain u where c': "c' = u @ ''log''" and nn: "newline \<notin> set u"
    and tk: "take (5 + length c') s = ''name='' @ c'"
    by (auto simp: match_at_def is_capture_def)
  have "s = take (5 + length c') s @ drop (5 + length c') s" by simp
  with tk have s: "s = ''name='' @ c' @ drop (5 + length c') s" by simp
  then have sw: "startswith ''name='' s" unfolding startswith_iff by blast
  have "drop 5 (''name='' @ c' @ drop (5 + length c') s) = c' @ drop (5 + length c') s"
    by (rule drop_one [OF length_name])
  with s have d: "drop 5 s = c' @ drop (5 + length c') s" by simp
  have nl: "newline \<noteq> CHR ''l''" "newline \<noteq> CHR ''o''" "newline \<noteq> CHR ''g''"
    by (simp_all add: newline_def)
  with c' nn have all: "\<forall>x \<in> set c'. x \<noteq> newline" by auto
  then have "takeWhile (\<lambda>x. x \<noteq> newline) (c' @ drop (5 + length c') s) =
      c' @ takeWhile (\<lambda>x. x \<noteq> newline) (drop (5 + length c') s)"
    by (simp add: takeWhile_append2)
  with c' d have "takeWhile (\<lambda>x. x \<noteq> newline) (drop 5 s) =
      u @ ''log'' @ takeWhile (\<lambda>x. x \<noteq> newline) (drop (5 + length c') s)" by simp
  from longest_log_complete [OF this] obtain p where
    "longest_log (takeWhile (\<lambda>x. x \<noteq> newline) (drop 5 s)) = Some p" "length u + 3 \<le> length p"
    by blast
  with sw c' show ?thesis by (simp add: match_here_def)
qed

lemma match_at_Suc: "match_at (x # xs) (Suc i) c \<longleftrightarrow> match_at xs i c"
  by (auto simp add: match_at_def)

lemma findall_first:
  "(findall_name s = [] \<longrightarrow> (\<forall>i c. \<not> match_at s i c)) \<and>
   (\<forall>c cs. findall_name s = c # cs \<longrightarrow>
      (\<exists>i. match_at s i c \<and>
           (\<forall>j c'. match_at s j c' \<longrightarrow> i < j \<or> (i = j \<and> length c' \<le> length c))))"
proof (induction s)
  case Nil
  then show ?case by (simp add: match_at_def)
next
  case (Cons x xs)
  show ?case
  proof (cases "match_here (x # xs)")
    case (Some cap)
    have m0: "match_at (x # xs) 0 cap" by (rule match_here_sound [OF Some])
    have best: "i < j \<or> (i = j \<and> length c' \<le> length cap)"
      if "match_at (x # xs) j c'" "i = 0" for i j c'
    proof (cases j)
      case 0
      with that match_here_complete [of "x # xs" c'] Some show ?thesis by auto
    next
      case (Suc k)
      with that show ?thesis by simp
    qed
    from Some m0 best show ?thesis by auto
  next
    case None
    then have no0: "\<not> match_at (x # xs) 0 c" for c
      using match_here_complete [of "x # xs" c] by auto
    have shift: "match_at (x # xs) j c \<Longrightarrow> \<exists>k. j = Suc k \<and> match_at xs k c" for j c
      using no0 [of c] by (cases j) (auto simp: match_at_Suc)
    from None have f: "findall_name (x # xs) = findall_name xs" by simp
    show ?thesis
    proof (intro conjI impI allI)
      fix i c
      assume "findall_name (x # xs) = []"
      with f Cons.IH have "\<forall>i c. \<not> match_at xs i c" by simp
      with shift show "\<not> match_at (x # xs) i c" by blast
    next
      fix c cs
      assume "findall_name (x # xs) = c # cs"
      with f Cons.IH obtain i where i: "match_at xs i c"
        and b: "\<forall>j c'. match_at xs j c' \<longrightarrow> i < j \<or> (i = j \<and> length c' \<le> length c)"
        by auto
      have "match_at (x # xs) (Suc i) c" using i by (simp add: match_at_Suc)
      moreover have "\<forall>j c'. match_at (x # xs) j c' \<longrightarrow>
          Suc i < j \<or> (Suc i = j \<and> length c' \<le> length c)"
      proof (intro allI impI)
        fix j c'
        assume "match_at (x # xs) j c'"
        from shift [OF this] obtain k where "j = Suc k" "match_at xs k c'" by blast
        with b show "Suc i < j \<or> (Suc i = j \<and> length c' \<le> length c)" by auto
      qed
      ultimately show "\<exists>i. match_at (x # xs) i c \<and>
          (\<forall>j c'. match_at (x # xs) j c' \<longrightarrow> i < j \<or> (i = j \<and> length c' \<le> length c))"
        by blast
    qed
  qed
qed

text \<open>
  Claim C9. \<^verbatim>\<open>get_test_id\<close> is partial. If some substring of the response text matches
  \<^verbatim>\<open>name=(.*log)\<close>, it returns the captured group of the first match: the match that
  starts leftmost, and the longest one that starts there. If no substring matches, the
  indexing of the empty match list raises \<^verbatim>\<open>IndexError\<close>.
\<close>

theorem get_test_id_partial:
  "((\<exists>i c. match_at (resp_text r) i c) \<longrightarrow>
      (\<exists>i c. get_test_id r = Inr c \<and> match_at (resp_text r) i c \<and>
         (\<forall>j c'. match_at (resp_text r) j c' \<longrightarrow> i < j \<or> (i = j \<and> length c' \<le> length c)))) \<and>
   ((\<forall>i c. \<not> match_at (resp_text r) i c) \<longrightarrow>
      get_test_id r = Inl (PyExn IndexError ''list index out of range''))"
proof (cases "findall_name (resp_text r)")
  case Nil
  with findall_first [of "resp_text r"] show ?thesis
    by (simp add: get_test_id_def)
next
  case (Cons c cs)
  with findall_first [of "resp_text r"] obtain i where
    "match_at (resp_text r) i c"
    "\<forall>j c'. match_at (resp_text r) j c' \<longrightarrow> i < j \<or> (i = j \<and> length c' \<le> length c)"
    by blast
  with Cons show ?thesis
    by (auto simp add: get_test_id_def)
qed

theorem get_test_id_partial_witness:
  "match_at ''name=t.log [Test finished]'' 0 ''t.log'' \<and>
   get_test_id \<lparr>status_code = 200, resp_text = ''name=t.log [Test finished]''\<rparr> = Inr ''t.log'' \<and>
   (\<forall>i c. \<not> match_at ''hello'' i c) \<and>
   get_test_id \<lparr>status_code = 200, resp_text = ''hello''\<rparr>
     = Inl (PyExn IndexError ''list index out of range'')"
proof -
  have "''t.log'' = ''t.'' @ ''log'' \<and> newline \<notin> set ''t.''" by (simp add: newline_def)
  then have cap: "is_capture ''t.log''" unfolding is_capture_def by blast
  then have m: "match_at ''name=t.log [Test finished]'' 0 ''t.log''"
    by (simp add: match_at_def)
  have n: "\<forall>i c. \<not> match_at ''hello'' i c"
    by (auto simp add: match_at_def is_capture_def)
  have v: "get_test_id \<lparr>status_code = 200, resp_text = ''name=t.log [Test finished]''\<rparr>
             = Inr ''t.log''"
    by (simp add: get_test_id_def match_here_def newline_def)
  from get_test_id_partial [of "\<lparr>status_code = 200, resp_text = ''name=t.log [Test finished]''\<rparr>"] m
  have "\<exists>i c. get_test_id \<lparr>status_code = 200, resp_text = ''name=t.log [Test finished]''\<rparr> = Inr c"
    by (simp del: findall_name.simps) blast
  moreover
  from get_test_id_partial [of "\<lparr>status_code = 200, resp_text = ''hello''\<rparr>"] n
  have "get_test_id \<lparr>status_code = 200, resp_text = ''hello''\<rparr>
     = Inl (PyExn IndexError ''list index out of range'')"
    by simp
  ultimately show ?thesis using m n v by blast
qed



section \<open>The completion check under a failing fetch\<close>

text \<open>
  Claim C10. In the autoscaling script \<^verbatim>\<open>is_test_complete\<close> does not raise when the log
  fetch raises: the file has been truncated by \<^verbatim>\<open>open(..., "w")\<close>, nothing is written,
  and the result, computed from the file read back, is False. When the fetch succeeds the
  fetched text is written and the result is computed from it. In the horizontal-scaling
  script the exception of the fetch leaves \<^verbatim>\<open>is_test_complete\<close>.
\<close>

theorem is_test_complete_fetch_error:
  "(http_get w (calls s) = Inl e \<longrightarrow>
      fst (is_test_complete_t2 w lg lname s) = Inr False \<and>
      files (snd (is_test_complete_t2 w lg lname s)) (lname @ ''.log'') = Some [] \<and>
      fst (is_test_complete w lg lname s) = Inl e) \<and>
   (http_get w (calls s) = Inr r \<longrightarrow>
      fst (is_test_complete_t2 w lg lname s) = Inr (contains ''[Test finished]'' (resp_text r)) \<and>
      files (snd (is_test_complete_t2 w lg lname s)) (lname @ ''.log'') = Some (resp_text r))"
  by (simp add: is_test_complete_t2_def is_test_complete_def requests_get_def Let_def open_w_def
      emit_def extcall_def file_write_def)

theorem is_test_complete_fetch_error_witness:
  "http_get w_down (calls env0) = Inl (PyExn ReqConnectionError ''refused'') \<and>
   fst (is_test_complete_t2 w_down ''lg'' ''t'' env0) = Inr False \<and>
   files (snd (is_test_complete_t2 w_down ''lg'' ''t'' env0)) (''t'' @ ''.log'') = Some [] \<and>
   fst (is_test_complete w_down ''lg'' ''t'' env0) = Inl (PyExn ReqConnectionError ''refused'') \<and>
   http_get w_finished (calls env0) =
     Inr \<lparr>status_code = 200, resp_text = ''name=t.log [Test finished]''\<rparr> \<and>
   fst (is_test_complete_t2 w_finished ''lg'' ''t'' env0) = Inr True"
proof -
  have d: "http_get w_down (calls env0) = Inl (PyExn ReqConnectionError ''refused'')"
    by (simp add: w_down_def)
  have f: "http_get w_finished (calls env0) =
     Inr \<lparr>status_code = 200, resp_text = ''name=t.log [Test finished]''\<rparr>"
    by (simp add: w_finished_def)
  have c: "contains ''[Test finished]'' ''name=t.log [Test finished]''" by simp
  show ?thesis
    using is_test_complete_fetch_error [of w_down env0 "PyExn ReqConnectionError ''refused''"
        "''lg''" "''t''"]
      is_test_complete_fetch_error [of w_finished env0 _ "''lg''" "''t''"
        "\<lparr>status_code = 200, resp_text = ''name=t.log [Test finished]''\<rparr>"] d f c
    by simp
qed

section \<open>The metric\<close>

lemma not_contains_DEFAULT: "\<not> contains ''Current rps='' ''DEFAULT''"
  by simp

lemma read_line_headers:
  assumes "read_line line st = Inr st'"
      and "set (sections st) \<subseteq> set (headers st)"
      and "distinct (headers st) \<longrightarrow> sections st = filter (\<lambda>h. h \<noteq> ''DEFAULT'') (headers st)"
  shows "set (sections st') \<subseteq> set (headers st') \<and>
         (distinct (headers st') \<longrightarrow> sections st' = filter (\<lambda>h. h \<noteq> ''DEFAULT'') (headers st'))"
  using assms
  by (auto simp add: read_line_def Let_def split: if_splits option.splits)

lemma read_lines_headers:
  "read_lines ls st = Inr st' \<Longrightarrow>
   set (sections st) \<subseteq> set (headers st) \<Longrightarrow>
   (distinct (headers st) \<longrightarrow> sections st = filter (\<lambda>h. h \<noteq> ''DEFAULT'') (headers st)) \<Longrightarrow>
   set (sections st') \<subseteq> set (headers st') \<and>
   (distinct (headers st') \<longrightarrow> sections st' = filter (\<lambda>h. h \<noteq> ''DEFAULT'') (headers st'))"
proof (induction ls arbitrary: st)
  case Nil
  then show ?case by simp
next
  case (Cons l ls)
  from Cons.prems(1) obtain st1 where r1: "read_line l st = Inr st1"
    and r2: "read_lines ls st1 = Inr st'"
    by (auto split: sum.splits)
  from read_line_headers [OF r1 Cons.prems(2) Cons.prems(3)]
  have "set (sections st1) \<subseteq> set (headers st1)"
    "distinct (headers st1) \<longrightarrow> sections st1 = filter (\<lambda>h. h \<noteq> ''DEFAULT'') (headers st1)"
    by simp_all
  from Cons.IH [OF r2 this] show ?case .
qed

lemma read_string_headers:
  assumes "read_string txt = Inr st" "distinct (headers st)"
  shows "sections st = filter (\<lambda>h. h \<noteq> ''DEFAULT'') (headers st)"
proof -
  from assms(1) have "read_lines (split_lines txt) cp0 = Inr st"
    by (auto simp add: read_string_def split: sum.splits if_splits)
  from read_lines_headers [OF this] assms(2) show ?thesis by (simp add: cp0_def)
qed

lemma read_lines_sections_sub:
  "read_string txt = Inr st \<Longrightarrow> set (sections st) \<subseteq> set (headers st)"
proof -
  assume "read_string txt = Inr st"
  then have "read_lines (split_lines txt) cp0 = Inr st"
    by (auto simp add: read_string_def split: sum.splits if_splits)
  from read_lines_headers [OF this] show ?thesis by (simp add: cp0_def)
qed

lemma rps_loop_filter:
  "rps_loop pf secs =
     (case filter (contains ''Current rps='') secs of
        [] \<Rightarrow> Inr (PyInt 0)
      | sec # rest \<Rightarrow> to_rps pf sec)"
  by (induction secs) (simp_all del: contains.simps)

lemma rps_loop_rev:
  "rps_loop pf (rev secs) =
     (if filter (contains ''Current rps='') secs = [] then Inr (PyInt 0)
      else to_rps pf (last (filter (contains ''Current rps='') secs)))"
proof -
  let ?f = "filter (contains ''Current rps='') secs"
  have "filter (contains ''Current rps='') (rev secs) = rev ?f" by (simp add: rev_filter)
  then show ?thesis
    by (cases ?f rule: rev_cases) (simp_all add: rps_loop_filter del: contains.simps)
qed

text \<open>
  Where the code and the latest value agree. Let the report be answered to the fetch and
  be accepted by the parser. If no section header of the report contains
  \<^verbatim>\<open>Current rps=\<close>, \<^verbatim>\<open>get_rps\<close> returns the integer 0. If some do and no section header
  is repeated, it returns \<^verbatim>\<open>float()\<close> of the last such header (in the order of the text)
  without its first 12 characters, and raises \<^verbatim>\<open>ValueError\<close> where \<^verbatim>\<open>float()\<close> does.
\<close>

lemma get_rps_distinct_headers:
  assumes "http_get w (calls s) = Inr r"
      and "read_string (resp_text r) = Inr st"
  shows "((\<forall>h \<in> set (headers st). \<not> contains ''Current rps='' h) \<longrightarrow>
            fst (get_rps pf w lg lname s) = Inr (PyInt 0)) \<and>
         ((\<exists>h \<in> set (headers st). contains ''Current rps='' h) \<and> distinct (headers st) \<longrightarrow>
            fst (get_rps pf w lg lname s) =
              to_rps pf (last (filter (contains ''Current rps='') (headers st))))"
proof -
  have g: "fst (get_rps pf w lg lname s) = rps_loop pf (rev (sections st))"
    using assms by (simp add: get_rps_def requests_get_def rps_of_text_def read_sections_def)
  have sub: "set (sections st) \<subseteq> set (headers st)"
    by (rule read_lines_sections_sub [OF assms(2)])
  have zero: "fst (get_rps pf w lg lname s) = Inr (PyInt 0)"
    if "\<forall>h \<in> set (headers st). \<not> contains ''Current rps='' h"
  proof -
    from that sub have "filter (contains ''Current rps='') (sections st) = []"
      by (auto simp add: filter_empty_conv simp del: contains.simps)
    with g show ?thesis by (simp add: rps_loop_rev del: contains.simps)
  qed
  have lst: "fst (get_rps pf w lg lname s) =
              to_rps pf (last (filter (contains ''Current rps='') (headers st)))"
    if ex: "\<exists>h \<in> set (headers st). contains ''Current rps='' h" and d: "distinct (headers st)"
  proof -
    from read_string_headers [OF assms(2) d]
    have "filter (contains ''Current rps='') (sections st) =
          filter (\<lambda>h. contains ''Current rps='' h \<and> h \<noteq> ''DEFAULT'') (headers st)"
      by (simp add: conj_commute del: contains.simps)
    also have "\<dots> = filter (contains ''Current rps='') (headers st)"
      by (rule filter_cong) (auto simp del: contains.simps dest: not_contains_DEFAULT [THEN notE, rotated])
    finally have e: "filter (contains ''Current rps='') (sections st) =
          filter (contains ''Current rps='') (headers st)" .
    from ex have "filter (contains ''Current rps='') (headers st) \<noteq> []"
      by (auto simp add: filter_empty_conv simp del: contains.simps)
    with g e show ?thesis by (simp add: rps_loop_rev del: contains.simps)
  qed
  from zero lst show ?thesis by blast
qed

lemma read_report3:
  "\<exists>st. read_string report3 = Inr st \<and>
        headers st = [''Current rps=10'', ''Current rps=30'', ''Current rps=45'']"
  by (simp add: report3_def parse_defs)

lemma read_no_rps:
  "\<exists>st. read_string ''[Test]'' = Inr st \<and> headers st = [''Test'']"
  by (simp add: parse_defs)

text \<open>The report with the values 10, 30, 45 gives 45; a report without the metric gives 0.\<close>

lemma get_rps_report3:
  "http_get w_report3 (calls env0) = Inr \<lparr>status_code = 200, resp_text = report3\<rparr> \<and>
   fst (get_rps pf_table w_report3 ''lg'' ''log'' env0) = Inr (PyFloat (Finite 45)) \<and>
   http_get w_no_rps (calls env0) = Inr \<lparr>status_code = 200, resp_text = ''[Test]''\<rparr> \<and>
   fst (get_rps pf_table w_no_rps ''lg'' ''log'' env0) = Inr (PyInt 0)"
proof -
  have h3: "http_get w_report3 (calls env0) = Inr \<lparr>status_code = 200, resp_text = report3\<rparr>"
    by (simp add: w_report3_def)
  from read_report3 obtain st where
    r3: "read_string (resp_text \<lparr>status_code = 200, resp_text = report3\<rparr>) = Inr st" and
    hs: "headers st = [''Current rps=10'', ''Current rps=30'', ''Current rps=45'']"
    by auto
  have a: "fst (get_rps pf_table w_report3 ''lg'' ''log'' env0) = Inr (PyFloat (Finite 45))"
    using get_rps_distinct_headers [OF h3 r3, of pf_table "''lg''" "''log''"] hs
    by (simp add: to_rps_def pf_table_def)
  have h0: "http_get w_no_rps (calls env0) = Inr \<lparr>status_code = 200, resp_text = ''[Test]''\<rparr>"
    by (simp add: w_no_rps_def)
  from read_no_rps obtain st0 where
    r0: "read_string (resp_text \<lparr>status_code = 200, resp_text = ''[Test]''\<rparr>) = Inr st0" and
    hs0: "headers st0 = [''Test'']"
    by auto
  have b: "fst (get_rps pf_table w_no_rps ''lg'' ''log'' env0) = Inr (PyInt 0)"
    using get_rps_distinct_headers [OF h0 r0, of pf_table "''lg''" "''log''"] hs0
    by simp
  from h3 a h0 b show ?thesis by blast
qed

text \<open>
  A text that the parser rejects is not handled: the exception of \<^verbatim>\<open>read_string\<close>
  leaves \<^verbatim>\<open>get_rps\<close>.
\<close>

lemma get_rps_rejected_text:
  "\<not> contains ''Current rps='' ''ok'' \<and>
   fst (get_rps pf_table w_up ''lg'' ''log'' env0) =
     Inl (PyExn MissingSectionHeaderError ''File contains no section headers.'')"
  by (simp add: get_rps_def requests_get_def w_up_def w_low_def env0_def parse_defs)


text \<open>
  Claim C5. The claim, like the docstring of \<^verbatim>\<open>get_rps\<close> (\<^verbatim>\<open>:return: latest RPS value\<close>),
  promises the most recently reported value. The code does not return it when a value
  comes back. The report with the sections \<^verbatim>\<open>Current rps=10\<close>, \<^verbatim>\<open>Current rps=30\<close>,
  \<^verbatim>\<open>Current rps=10\<close>, in this order, is accepted by the parser; its last section of the
  metric reports 10; \<^verbatim>\<open>sections()\<close> lists a repeated header once, at its first place,
  so the reversed list starts with \<^verbatim>\<open>Current rps=30\<close>, and \<^verbatim>\<open>get_rps\<close> returns 30.0.
\<close>

theorem get_rps_repeated_value:
  "http_get w_repeat (calls env0) = Inr \<lparr>status_code = 200, resp_text = report_repeat\<rparr> \<and>
   headers_of report_repeat = [''Current rps=10'', ''Current rps=30'', ''Current rps=10''] \<and>
   to_rps pf_table (last (filter (contains ''Current rps='') (headers_of report_repeat)))
     = Inr (PyFloat (Finite 10)) \<and>
   read_sections report_repeat = Inr [''Current rps=10'', ''Current rps=30''] \<and>
   fst (get_rps pf_table w_repeat ''lg'' ''log'' env0) = Inr (PyFloat (Finite 30))"
proof -
  have h: "headers_of report_repeat = [''Current rps=10'', ''Current rps=30'', ''Current rps=10'']"
    by (simp add: headers_of_def report_repeat_def parse_defs)
  have s: "read_sections report_repeat = Inr [''Current rps=10'', ''Current rps=30'']"
    by (simp add: report_repeat_def parse_defs)
  have l: "to_rps pf_table (last (filter (contains ''Current rps='') (headers_of report_repeat)))
     = Inr (PyFloat (Finite 10))"
    unfolding h by (simp add: to_rps_def pf_table_def)
  have g: "fst (get_rps pf_table w_repeat ''lg'' ''log'' env0) = rps_of_text pf_table report_repeat"
    by (simp add: get_rps_def requests_get_def w_repeat_def split_beta)
  have r: "rps_of_text pf_table report_repeat = Inr (PyFloat (Finite 30))"
    by (simp add: rps_of_text_def s to_rps_def pf_table_def)
  have w: "http_get w_repeat (calls env0) = Inr \<lparr>status_code = 200, resp_text = report_repeat\<rparr>"
    by (simp add: w_repeat_def)
  from w h l s g r show ?thesis by simp
qed


section \<open>The cooldown timestamp\<close>

lemma wait_loop_fail_from:
  assumes "\<forall>k \<ge> calls s0. probe_fails (http_get w k)"
  shows "calls s0 \<le> calls s \<Longrightarrow> fst (wait_loop w d u r s) = Inr False"
proof (induction "40 - r" arbitrary: r s)
  case 0
  then show ?case by (simp add: wait_loop_done)
next
  case (Suc n)
  then have lt: "r < 40" and n: "n = 40 - Suc r" by arith+
  from Suc.prems have "calls s0 \<le> calls (sleep 2 (extcall (EvGet u) s))" by simp
  note ih = Suc.hyps(1) [OF n this]
  from assms Suc.prems have pf: "probe_fails (http_get w (calls s))" by blast
  show ?case
  proof (cases "http_get w (calls s)")
    case (Inl e)
    with pf lt ih show ?thesis by (simp add: wait_loop_step)
  next
    case (Inr resp)
    with pf lt ih show ?thesis by (simp add: wait_loop_step)
  qed
qed

lemma iteration_locals:
  assumes "is_test_complete w lg lname s = (Inr False, s1)"
      and "fetch_metrics pf w lg lname l s1 = (Inr (rps, td), s3)"
      and "num_lt rps 50 \<and> td > 100"
  shows "fst (snd (iteration pf cfg w lg lname g l s)) =
           fst (snd (attempt cfg w lg g l (print MsgRpsLow s3)))"
  using assms
  by (simp add: iteration_def loop_body_def split_beta split: option.splits)

text \<open>
  Claim C2. Take an iteration of the loop that makes a scale-out attempt. The cooldown
  timestamp that the iteration leaves to the loop is the old one when
  \<^verbatim>\<open>create_instance\<close> raises, when the reloaded instance has no DNS name, when
  \<^verbatim>\<open>wait_for_server_health\<close> returns False and when the registration request is
  answered with a status other than 200. When the registration request is answered 200,
  it is the clock value read right after that answer. Conversely, if the timestamp has
  changed, the instance was created, has a DNS name, passed the health check and was
  registered with status 200. When the iteration returns to the loop condition, the loop
  goes on with the local variables that the iteration left, this timestamp among them.
\<close>

theorem cooldown_reset_iff:
  assumes "is_test_complete w lg lname s = (Inr False, s1)"
      and "fetch_metrics pf w lg lname l s1 = (Inr (rps, td), s3)"
      and "num_lt rps 50 \<and> td > 100"
  shows
    "(create_instance w (web_service_ami cfg) g (print MsgRpsLow s3) = (Inl e, s4) \<longrightarrow>
        last_launch_time (fst (snd (iteration pf cfg w lg lname g l s))) = last_launch_time l) \<and>
     (create_instance w (web_service_ami cfg) g (print MsgRpsLow s3) = (Inr ws, s4) \<and>
      instance_reload w (instance_id ws) s4 = (Inr dns, s5) \<and> (dns = None \<or> dns = Some []) \<longrightarrow>
        last_launch_time (fst (snd (iteration pf cfg w lg lname g l s))) = last_launch_time l) \<and>
     (create_instance w (web_service_ami cfg) g (print MsgRpsLow s3) = (Inr ws, s4) \<and>
      instance_reload w (instance_id ws) s4 = (Inr (Some d), s5) \<and> d \<noteq> [] \<and>
      wait_for_server_health w d s5 = (Inr False, s6) \<longrightarrow>
        last_launch_time (fst (snd (iteration pf cfg w lg lname g l s))) = last_launch_time l) \<and>
     (create_instance w (web_service_ami cfg) g (print MsgRpsLow s3) = (Inr ws, s4) \<and>
      instance_reload w (instance_id ws) s4 = (Inr (Some d), s5) \<and> d \<noteq> [] \<and>
      wait_for_server_health w d s5 = (Inr True, s6) \<and>
      requests_get w (add_url lg d) s6 = (Inr res, s7) \<and> status_code res \<noteq> 200 \<longrightarrow>
        last_launch_time (fst (snd (iteration pf cfg w lg lname g l s))) = last_launch_time l) \<and>
     (create_instance w (web_service_ami cfg) g (print MsgRpsLow s3) = (Inr ws, s4) \<and>
      instance_reload w (instance_id ws) s4 = (Inr (Some d), s5) \<and> d \<noteq> [] \<and>
      wait_for_server_health w d s5 = (Inr True, s6) \<and>
      requests_get w (add_url lg d) s6 = (Inr res, s7) \<and> status_code res = 200 \<longrightarrow>
        last_launch_time (fst (snd (iteration pf cfg w lg lname g l s))) = now w (calls s7)) \<and>
     (last_launch_time (fst (snd (iteration pf cfg w lg lname g l s))) \<noteq> last_launch_time l \<longrightarrow>
        (\<exists>ws' t4 d' t5 t6 res' t7.
           create_instance w (web_service_ami cfg) g (print MsgRpsLow s3) = (Inr ws', t4) \<and>
           instance_reload w (instance_id ws') t4 = (Inr (Some d'), t5) \<and> d' \<noteq> [] \<and>
           wait_for_server_health w d' t5 = (Inr True, t6) \<and>
           requests_get w (add_url lg d') t6 = (Inr res', t7) \<and> status_code res' = 200 \<and>
           last_launch_time (fst (snd (iteration pf cfg w lg lname g l s))) = now w (calls t7))) \<and>
     (fst (iteration pf cfg w lg lname g l s) = Again \<longrightarrow>
        main_loop (Suc n) pf cfg w lg lname g l s =
          main_loop n pf cfg w lg lname g (fst (snd (iteration pf cfg w lg lname g l s)))
            (snd (snd (iteration pf cfg w lg lname g l s))))"
proof -
  note il = iteration_locals [OF assms, of cfg g]
  have L: "fst (iteration pf cfg w lg lname g l s) = Again \<longrightarrow>
        main_loop (Suc n) pf cfg w lg lname g l s =
          main_loop n pf cfg w lg lname g (fst (snd (iteration pf cfg w lg lname g l s)))
            (snd (snd (iteration pf cfg w lg lname g l s)))"
    by (cases "iteration pf cfg w lg lname g l s") auto
  have A: "create_instance w (web_service_ami cfg) g (print MsgRpsLow s3) = (Inl e, s4) \<longrightarrow>
        last_launch_time (fst (snd (iteration pf cfg w lg lname g l s))) = last_launch_time l"
    by (simp add: il attempt_def)
  have C: "create_instance w (web_service_ami cfg) g (print MsgRpsLow s3) = (Inr ws, s4) \<and>
      instance_reload w (instance_id ws) s4 = (Inr dns, s5) \<and> (dns = None \<or> dns = Some []) \<longrightarrow>
        last_launch_time (fst (snd (iteration pf cfg w lg lname g l s))) = last_launch_time l"
    by (auto simp add: il attempt_def Let_def)
  have E: "create_instance w (web_service_ami cfg) g (print MsgRpsLow s3) = (Inr ws, s4) \<and>
      instance_reload w (instance_id ws) s4 = (Inr (Some d), s5) \<and> d \<noteq> [] \<and>
      wait_for_server_health w d s5 = (Inr False, s6) \<longrightarrow>
        last_launch_time (fst (snd (iteration pf cfg w lg lname g l s))) = last_launch_time l"
    by (auto simp add: il attempt_def Let_def)
  have G: "create_instance w (web_service_ami cfg) g (print MsgRpsLow s3) = (Inr ws, s4) \<and>
      instance_reload w (instance_id ws) s4 = (Inr (Some d), s5) \<and> d \<noteq> [] \<and>
      wait_for_server_health w d s5 = (Inr True, s6) \<and>
      requests_get w (add_url lg d) s6 = (Inr res, s7) \<and> status_code res \<noteq> 200 \<longrightarrow>
        last_launch_time (fst (snd (iteration pf cfg w lg lname g l s))) = last_launch_time l"
    by (auto simp add: il attempt_def Let_def)
  have H: "create_instance w (web_service_ami cfg) g (print MsgRpsLow s3) = (Inr ws, s4) \<and>
      instance_reload w (instance_id ws) s4 = (Inr (Some d), s5) \<and> d \<noteq> [] \<and>
      wait_for_server_health w d s5 = (Inr True, s6) \<and>
      requests_get w (add_url lg d) s6 = (Inr res, s7) \<and> status_code res = 200 \<longrightarrow>
        last_launch_time (fst (snd (iteration pf cfg w lg lname g l s))) = now w (calls s7)"
    by (auto simp add: il attempt_def Let_def datetime_now_def)
  have O: "last_launch_time (fst (snd (iteration pf cfg w lg lname g l s))) \<noteq> last_launch_time l \<longrightarrow>
        (\<exists>ws' t4 d' t5 t6 res' t7.
           create_instance w (web_service_ami cfg) g (print MsgRpsLow s3) = (Inr ws', t4) \<and>
           instance_reload w (instance_id ws') t4 = (Inr (Some d'), t5) \<and> d' \<noteq> [] \<and>
           wait_for_server_health w d' t5 = (Inr True, t6) \<and>
           requests_get w (add_url lg d') t6 = (Inr res', t7) \<and> status_code res' = 200 \<and>
           last_launch_time (fst (snd (iteration pf cfg w lg lname g l s))) = now w (calls t7))"
    unfolding il
    by (auto simp add: attempt_def Let_def datetime_now_def
        split: prod.splits sum.splits if_splits option.splits)
  from A C E G H O L show ?thesis by blast
qed

lemmas first_defs = first_attempt_state_def first_cooldown_def

lemma first_check:
  "fst (is_test_complete w_quota ''lg'' ''log'' env0) = Inr False"
  "fst (is_test_complete w_nodns ''lg'' ''log'' env0) = Inr False"
  "fst (is_test_complete w_probe_fail ''lg'' ''log'' env0) = Inr False"
  "fst (is_test_complete w_reject ''lg'' ''log'' env0) = Inr False"
  "fst (is_test_complete w_ticking ''lg'' ''log'' env0) = Inr False"
  by (simp_all add: env_defs run_defs w_quota_def w_nodns_def w_probe_fail_def w_reject_def
      w_ticking_def w_low_def)

lemma first_metrics:
  "fst (fetch_metrics pf_table w_quota ''lg'' ''log'' locals0
          (snd (is_test_complete w_quota ''lg'' ''log'' env0))) = Inr (PyFloat (Finite 10), 200)"
  "fst (fetch_metrics pf_table w_nodns ''lg'' ''log'' locals0
          (snd (is_test_complete w_nodns ''lg'' ''log'' env0))) = Inr (PyFloat (Finite 10), 200)"
  "fst (fetch_metrics pf_table w_probe_fail ''lg'' ''log'' locals0
          (snd (is_test_complete w_probe_fail ''lg'' ''log'' env0))) = Inr (PyFloat (Finite 10), 200)"
  "fst (fetch_metrics pf_table w_reject ''lg'' ''log'' locals0
          (snd (is_test_complete w_reject ''lg'' ''log'' env0))) = Inr (PyFloat (Finite 10), 200)"
  "fst (fetch_metrics pf_table w_ticking ''lg'' ''log'' locals0
          (snd (is_test_complete w_ticking ''lg'' ''log'' env0))) = Inr (PyFloat (Finite 10), 202)"
  by (simp_all add: env_defs parse_defs run_defs w_quota_def w_nodns_def w_probe_fail_def
      w_reject_def w_ticking_def w_low_def)

lemma first_calls:
  "calls (first_attempt_state w_quota) = 3"
  "calls (first_attempt_state w_nodns) = 3"
  "calls (first_attempt_state w_probe_fail) = 3"
  "calls (first_attempt_state w_reject) = 3"
  "calls (first_attempt_state w_ticking) = 3"
  by (simp_all add: first_defs env_defs parse_defs run_defs w_quota_def w_nodns_def
      w_probe_fail_def w_reject_def w_ticking_def w_low_def)

lemma calls_create_instance:
  "fst (create_instance w a g s) = Inr ws \<Longrightarrow> calls (snd (create_instance w a g s)) = calls s + 3"
  by (auto simp add: create_instance_def ec2_create_instances_def instance_wait_until_running_def
      instance_reload_def split: sum.splits option.splits)

lemma world_fields:
  "create_instances w_nodns 3 = Inr ''i-new''" "create_instances w_probe_fail 3 = Inr ''i-new''"
  "create_instances w_reject 3 = Inr ''i-new''" "create_instances w_ticking 3 = Inr ''i-new''"
  "create_instances w_quota 3 = Inl (PyExn ClientError ''VcpuLimitExceeded'')"
  "wait_until_running w_nodns k = None" "wait_until_running w_probe_fail k = None"
  "wait_until_running w_reject k = None" "wait_until_running w_ticking k = None"
  "reload w_nodns k = Inr None" "reload w_probe_fail k = Inr (Some ''ws'')"
  "reload w_reject k = Inr (Some ''ws'')" "reload w_ticking k = Inr (Some ''ws'')"
  "7 \<le> k \<Longrightarrow> http_get w_probe_fail k = Inl (PyExn ReqConnectionError ''refused'')"
  "http_get w_reject 7 = Inr \<lparr>status_code = 200, resp_text = ''[Current rps=10]''\<rparr>"
  "http_get w_reject 8 = Inr \<lparr>status_code = 500, resp_text = ''busy''\<rparr>"
  "http_get w_ticking k = Inr \<lparr>status_code = 200, resp_text = ''[Current rps=10]''\<rparr>"
  "now w_ticking 9 = 209000000"
  by (simp_all add: w_quota_def w_nodns_def w_probe_fail_def w_reject_def w_ticking_def w_low_def)

lemmas attempt_steps = create_instance_def ec2_create_instances_def
  instance_wait_until_running_def instance_reload_def wait_for_server_health_def
  requests_get_def first_calls world_fields

lemma first_create:
  "fst (create_instance w_quota (web_service_ami cfg0) ''sg'' (first_attempt_state w_quota))
     = Inl (PyExn ClientError ''VcpuLimitExceeded'')"
  "fst (create_instance w_nodns (web_service_ami cfg0) ''sg'' (first_attempt_state w_nodns))
     = Inr \<lparr>instance_id = ''i-new'', public_dns_name = None\<rparr>"
  "fst (create_instance w_probe_fail (web_service_ami cfg0) ''sg'' (first_attempt_state w_probe_fail))
     = Inr \<lparr>instance_id = ''i-new'', public_dns_name = Some ''ws''\<rparr>"
  "fst (create_instance w_reject (web_service_ami cfg0) ''sg'' (first_attempt_state w_reject))
     = Inr \<lparr>instance_id = ''i-new'', public_dns_name = Some ''ws''\<rparr>"
  "fst (create_instance w_ticking (web_service_ami cfg0) ''sg'' (first_attempt_state w_ticking))
     = Inr \<lparr>instance_id = ''i-new'', public_dns_name = Some ''ws''\<rparr>"
  by (simp_all add: attempt_steps)

lemma first_create_calls:
  "calls (snd (create_instance w_nodns (web_service_ami cfg0) ''sg'' (first_attempt_state w_nodns))) = 6"
  "calls (snd (create_instance w_probe_fail (web_service_ami cfg0) ''sg''
                 (first_attempt_state w_probe_fail))) = 6"
  "calls (snd (create_instance w_reject (web_service_ami cfg0) ''sg'' (first_attempt_state w_reject))) = 6"
  "calls (snd (create_instance w_ticking (web_service_ami cfg0) ''sg'' (first_attempt_state w_ticking))) = 6"
  using calls_create_instance [OF first_create(2)] calls_create_instance [OF first_create(3)]
    calls_create_instance [OF first_create(4)] calls_create_instance [OF first_create(5)]
  by (simp_all add: first_calls)

lemma reload_simps:
  "fst (instance_reload w i s) = reload w (calls s)"
  "calls (snd (instance_reload w i s)) = Suc (calls s)"
  by (simp_all add: instance_reload_def)

lemma get_simps:
  "fst (requests_get w u s) = http_get w (calls s)"
  "calls (snd (requests_get w u s)) = Suc (calls s)"
  by (simp_all add: requests_get_def)

lemma wait_first_ok:
  "http_get w (calls s) = Inr r \<Longrightarrow> status_code r = 200 \<Longrightarrow>
     fst (wait_for_server_health w d s) = Inr True \<and>
     calls (snd (wait_for_server_health w d s)) = Suc (calls s)"
  by (simp add: wait_for_server_health_def wait_loop_step)

lemma wait_all_fail:
  "\<forall>k \<ge> calls s. probe_fails (http_get w k) \<Longrightarrow> fst (wait_for_server_health w d s) = Inr False"
  unfolding wait_for_server_health_def
  by (rule wait_loop_fail_from [where ?s0.0 = s]) simp_all

theorem cooldown_reset_iff_witness:
  "fst (create_instance w_quota (web_service_ami cfg0) ''sg'' (first_attempt_state w_quota))
     = Inl (PyExn ClientError ''VcpuLimitExceeded'') \<and>
   first_cooldown w_quota = 0 \<and>
   fst (create_instance w_nodns (web_service_ami cfg0) ''sg'' (first_attempt_state w_nodns))
     = Inr \<lparr>instance_id = ''i-new'', public_dns_name = None\<rparr> \<and>
   first_cooldown w_nodns = 0 \<and>
   fst (wait_for_server_health w_probe_fail ''ws''
          (snd (instance_reload w_probe_fail ''i-new''
                  (snd (create_instance w_probe_fail (web_service_ami cfg0) ''sg''
                          (first_attempt_state w_probe_fail)))))) = Inr False \<and>
   first_cooldown w_probe_fail = 0 \<and>
   http_get w_reject 8 = Inr \<lparr>status_code = 500, resp_text = ''busy''\<rparr> \<and>
   first_cooldown w_reject = 0 \<and>
   http_get w_ticking 8 = Inr \<lparr>status_code = 200, resp_text = ''[Current rps=10]''\<rparr> \<and>
   now w_ticking 9 = 209000000 \<and>
   first_cooldown w_ticking = 209000000"
proof -
  have cond: "num_lt (PyFloat (Finite 10)) 50 \<and> (200::rat) > 100"
    "num_lt (PyFloat (Finite 10)) 50 \<and> (202::rat) > 100" by simp_all
  have l0: "last_launch_time locals0 = 0" by (simp add: locals0_def)
  \<comment> \<open>provisioning exception\<close>
  have q: "first_cooldown w_quota = 0"
    using cooldown_reset_iff [OF pair_fst [OF first_check(1)] pair_fst [OF first_metrics(1)] cond(1),
        where cfg = cfg0 and g = "''sg''" and e = "PyExn ClientError ''VcpuLimitExceeded''"
          and ?s4.0 = "snd (create_instance w_quota (web_service_ami cfg0) ''sg''
                              (first_attempt_state w_quota))"]
      pair_fst [OF first_create(1)]
    by (simp add: first_defs l0)
  \<comment> \<open>missing DNS name\<close>
  let ?n4 = "snd (create_instance w_nodns (web_service_ami cfg0) ''sg'' (first_attempt_state w_nodns))"
  have nr: "fst (instance_reload w_nodns ''i-new'' ?n4) = Inr None"
    by (simp add: reload_simps world_fields)
  have n: "first_cooldown w_nodns = 0"
    using cooldown_reset_iff [OF pair_fst [OF first_check(2)] pair_fst [OF first_metrics(2)] cond(1),
        where cfg = cfg0 and g = "''sg''"
          and ws = "\<lparr>instance_id = ''i-new'', public_dns_name = None\<rparr>" and ?s4.0 = ?n4
          and dns = None and ?s5.0 = "snd (instance_reload w_nodns ''i-new'' ?n4)"]
      pair_fst [OF first_create(2)] pair_fst [OF nr]
    by (simp add: first_defs l0)
  \<comment> \<open>failed health probe\<close>
  let ?p4 = "snd (create_instance w_probe_fail (web_service_ami cfg0) ''sg''
                    (first_attempt_state w_probe_fail))"
  let ?p5 = "snd (instance_reload w_probe_fail ''i-new'' ?p4)"
  have pr: "fst (instance_reload w_probe_fail ''i-new'' ?p4) = Inr (Some ''ws'')"
    by (simp add: reload_simps world_fields)
  have pc: "calls ?p5 = 7" by (simp add: reload_simps first_create_calls)
  have pw: "fst (wait_for_server_health w_probe_fail ''ws'' ?p5) = Inr False"
    by (rule wait_all_fail) (simp add: pc world_fields)
  have p: "first_cooldown w_probe_fail = 0"
    using cooldown_reset_iff [OF pair_fst [OF first_check(3)] pair_fst [OF first_metrics(3)] cond(1),
        where cfg = cfg0 and g = "''sg''"
          and ws = "\<lparr>instance_id = ''i-new'', public_dns_name = Some ''ws''\<rparr>" and ?s4.0 = ?p4
          and d = "''ws''" and ?s5.0 = ?p5
          and ?s6.0 = "snd (wait_for_server_health w_probe_fail ''ws'' ?p5)"]
      pair_fst [OF first_create(3)] pair_fst [OF pr] pair_fst [OF pw]
    by (simp add: first_defs l0)
  \<comment> \<open>rejected registration\<close>
  let ?r4 = "snd (create_instance w_reject (web_service_ami cfg0) ''sg'' (first_attempt_state w_reject))"
  let ?r5 = "snd (instance_reload w_reject ''i-new'' ?r4)"
  let ?r6 = "snd (wait_for_server_health w_reject ''ws'' ?r5)"
  have rr: "fst (instance_reload w_reject ''i-new'' ?r4) = Inr (Some ''ws'')"
    by (simp add: reload_simps world_fields)
  have rc: "calls ?r5 = 7" by (simp add: reload_simps first_create_calls)
  from wait_first_ok [of w_reject ?r5 _ "''ws''"] rc
  have rw: "fst (wait_for_server_health w_reject ''ws'' ?r5) = Inr True" and rc6: "calls ?r6 = 8"
    by (simp_all add: world_fields)
  have rg: "fst (requests_get w_reject (add_url ''lg'' ''ws'') ?r6)
              = Inr \<lparr>status_code = 500, resp_text = ''busy''\<rparr>"
    by (simp add: get_simps rc6 world_fields)
  have r: "first_cooldown w_reject = 0"
    using cooldown_reset_iff [OF pair_fst [OF first_check(4)] pair_fst [OF first_metrics(4)] cond(1),
        where cfg = cfg0 and g = "''sg''"
          and ws = "\<lparr>instance_id = ''i-new'', public_dns_name = Some ''ws''\<rparr>" and ?s4.0 = ?r4
          and d = "''ws''" and ?s5.0 = ?r5 and ?s6.0 = ?r6
          and res = "\<lparr>status_code = 500, resp_text = ''busy''\<rparr>"
          and ?s7.0 = "snd (requests_get w_reject (add_url ''lg'' ''ws'') ?r6)"]
      pair_fst [OF first_create(4)] pair_fst [OF rr] pair_fst [OF rw] pair_fst [OF rg]
    by (simp add: first_defs l0)
  \<comment> \<open>successful registration\<close>
  let ?t4 = "snd (create_instance w_ticking (web_service_ami cfg0) ''sg'' (first_attempt_state w_ticking))"
  let ?t5 = "snd (instance_reload w_ticking ''i-new'' ?t4)"
  let ?t6 = "snd (wait_for_server_health w_ticking ''ws'' ?t5)"
  let ?t7 = "snd (requests_get w_ticking (add_url ''lg'' ''ws'') ?t6)"
  have tr: "fst (instance_reload w_ticking ''i-new'' ?t4) = Inr (Some ''ws'')"
    by (simp add: reload_simps world_fields)
  have tc: "calls ?t5 = 7" by (simp add: reload_simps first_create_calls)
  from wait_first_ok [of w_ticking ?t5 _ "''ws''"] tc
  have tw: "fst (wait_for_server_health w_ticking ''ws'' ?t5) = Inr True" and tc6: "calls ?t6 = 8"
    by (simp_all add: world_fields)
  have tg: "fst (requests_get w_ticking (add_url ''lg'' ''ws'') ?t6)
              = Inr \<lparr>status_code = 200, resp_text = ''[Current rps=10]''\<rparr>"
    by (simp add: get_simps world_fields)
  have tc7: "calls ?t7 = 9" by (simp add: get_simps tc6)
  have t: "first_cooldown w_ticking = 209000000"
    using cooldown_reset_iff [OF pair_fst [OF first_check(5)] pair_fst [OF first_metrics(5)] cond(2),
        where cfg = cfg0 and g = "''sg''"
          and ws = "\<lparr>instance_id = ''i-new'', public_dns_name = Some ''ws''\<rparr>" and ?s4.0 = ?t4
          and d = "''ws''" and ?s5.0 = ?t5 and ?s6.0 = ?t6
          and res = "\<lparr>status_code = 200, resp_text = ''[Current rps=10]''\<rparr>"
          and ?s7.0 = ?t7]
      pair_fst [OF first_create(5)] pair_fst [OF tr] pair_fst [OF tw] pair_fst [OF tg]
    by (simp add: first_defs tc7 [unfolded first_attempt_state_def] world_fields)
  show ?thesis
    using q n p r t first_create(1,2) pw by (simp add: world_fields)
qed



section \<open>Provisioning errors\<close>

text \<open>
  Claim C7. When \<^verbatim>\<open>create_instance\<close> raises an exception during a scale-out attempt, the
  iteration prints the error, sleeps one second and goes back to the loop condition: its
  result is \<open>Again\<close>, never \<open>Raised\<close>. It leaves the local variables as they were, does
  nothing else after the failed call, and has requested exactly one instance creation
  (no second try). The monitoring loop goes on from there: the run of the loop is the run
  of the loop started in the state after that sleep, with the same local variables.
\<close>

theorem provisioning_error_continues:
  assumes "is_test_complete w lg lname s = (Inr False, s1)"
      and "fetch_metrics pf w lg lname l s1 = (Inr (rps, td), s3)"
      and "num_lt rps 50 \<and> td > 100"
      and "create_instance w (web_service_ami cfg) g (print MsgRpsLow s3) = (Inl e, s4)"
  shows "iteration pf cfg w lg lname g l s =
           (Again, l, sleep 1 (print (MsgScalingPaused e) s4)) \<and>
         count_ev is_create (sleep 1 (print (MsgScalingPaused e) s4)) = Suc (count_ev is_create s) \<and>
         main_loop (Suc n) pf cfg w lg lname g l s =
           main_loop n pf cfg w lg lname g l (sleep 1 (print (MsgScalingPaused e) s4))"
proof -
  have a: "attempt cfg w lg g l (print MsgRpsLow s3) = (ProvisioningError e, l, s4)"
    using assms(4) by (simp add: attempt_def)
  have lb: "loop_body pf cfg w lg lname g l s1 = (Inr (), l, sleep 1 (print (MsgScalingPaused e) s4))"
    using assms(2,3) a by (simp add: loop_body_def)
  have it: "iteration pf cfg w lg lname g l s = (Again, l, sleep 1 (print (MsgScalingPaused e) s4))"
    using assms(1) lb by (simp add: iteration_def)
  have c1: "count_ev is_create s1 = count_ev is_create s"
    using count_is_test_complete [of w lg lname s] assms(1) by simp
  have "adds plain s1 (snd (fetch_metrics pf w lg lname l s1))"
    by (rule adds_fetch_metrics [OF adds_refl])
  then have c3: "count_ev is_create s3 = count_ev is_create s1"
    using assms(2) by (auto dest!: adds_count [where P = is_create] simp: plain_def)
  have c4: "count_ev is_create s4 = Suc (count_ev is_create (print MsgRpsLow s3))"
    using created_count [OF created_create_instance [of "print MsgRpsLow s3" w "web_service_ami cfg" g]]
      assms(4) by simp
  have ml: "main_loop (Suc n) pf cfg w lg lname g l s =
           main_loop n pf cfg w lg lname g l (sleep 1 (print (MsgScalingPaused e) s4))"
    using it by simp
  show ?thesis using it c1 c3 c4 ml by simp
qed

lemma quota_then_done:
  "fst (is_test_complete w_quota_then_done ''lg'' ''log'' env0) = Inr False"
  "fst (fetch_metrics pf_table w_quota_then_done ''lg'' ''log'' locals0
          (snd (is_test_complete w_quota_then_done ''lg'' ''log'' env0)))
     = Inr (PyFloat (Finite 10), 200)"
  "calls (first_attempt_state w_quota_then_done) = 3"
  by (simp_all add: first_attempt_state_def env_defs parse_defs run_defs w_quota_then_done_def
      w_quota_def w_low_def)

lemma quota_then_done_fields:
  "create_instances w_quota_then_done k = Inl (PyExn ClientError ''VcpuLimitExceeded'')"
  "http_get w_quota_then_done 4 = Inr \<lparr>status_code = 200, resp_text = ''[Test finished]''\<rparr>"
  by (simp_all add: w_quota_then_done_def w_quota_def)

lemma quota_then_done_create:
  "fst (create_instance w_quota_then_done (web_service_ami cfg0) ''sg''
          (first_attempt_state w_quota_then_done)) = Inl (PyExn ClientError ''VcpuLimitExceeded'')"
  "calls (snd (create_instance w_quota_then_done (web_service_ami cfg0) ''sg''
                 (first_attempt_state w_quota_then_done))) = 4"
  by (simp_all add: create_instance_def ec2_create_instances_def quota_then_done(3)
      quota_then_done_fields)

lemma second_check_finished:
  "calls s = 4 \<Longrightarrow> fst (is_test_complete w_quota_then_done ''lg'' ''log'' s) = Inr True"
  by (simp add: env_defs run_defs quota_then_done_fields)

theorem provisioning_error_continues_witness:
  "fst (create_instance w_quota_then_done (web_service_ami cfg0) ''sg''
          (first_attempt_state w_quota_then_done)) = Inl (PyExn ClientError ''VcpuLimitExceeded'') \<and>
   fst (iteration pf_table cfg0 w_quota_then_done ''lg'' ''log'' ''sg'' locals0 env0) = Again \<and>
   fst (snd (iteration pf_table cfg0 w_quota_then_done ''lg'' ''log'' ''sg'' locals0 env0)) = locals0 \<and>
   count_ev is_create
     (snd (snd (iteration pf_table cfg0 w_quota_then_done ''lg'' ''log'' ''sg'' locals0 env0))) = 1 \<and>
   main_loop (Suc 0) pf_table cfg0 w_quota_then_done ''lg'' ''log'' ''sg'' locals0 env0 = None \<and>
   map_option fst
     (main_loop (Suc (Suc 0)) pf_table cfg0 w_quota_then_done ''lg'' ''log'' ''sg'' locals0 env0)
     = Some (Inr ())"
proof -
  let ?s4 = "snd (create_instance w_quota_then_done (web_service_ami cfg0) ''sg''
                    (first_attempt_state w_quota_then_done))"
  let ?e = "PyExn ClientError ''VcpuLimitExceeded''"
  let ?s' = "sleep 1 (print (MsgScalingPaused ?e) ?s4)"
  have cond: "num_lt (PyFloat (Finite 10)) 50 \<and> (200::rat) > 100" by simp
  note p = pair_fst [OF quota_then_done_create(1), unfolded first_attempt_state_def]
  note T = provisioning_error_continues
    [OF pair_fst [OF quota_then_done(1)] pair_fst [OF quota_then_done(2)] cond p]
  have z: "count_ev is_create env0 = 0" by (simp add: count_ev_def env0_def)
  have c: "calls ?s' = 4" by (simp add: quota_then_done_create(2))
  from second_check_finished [OF c]
  have fin: "main_loop (Suc 0) pf_table cfg0 w_quota_then_done ''lg'' ''log'' ''sg'' locals0 ?s'
               = Some (Inr (), locals0, snd (is_test_complete w_quota_then_done ''lg'' ''log'' ?s'))"
    by (simp add: iteration_def split_beta)
  have one: "main_loop (Suc 0) pf_table cfg0 w_quota_then_done ''lg'' ''log'' ''sg'' locals0 env0 = None"
    using T [of 0] by (simp del: main_loop.simps add: main_loop.simps(1))
  have two: "map_option fst
     (main_loop (Suc (Suc 0)) pf_table cfg0 w_quota_then_done ''lg'' ''log'' ''sg'' locals0 env0)
     = Some (Inr ())"
    using T [of "Suc 0"] fin
    by (simp del: main_loop.simps add: first_attempt_state_def)
  have it: "fst (iteration pf_table cfg0 w_quota_then_done ''lg'' ''log'' ''sg'' locals0 env0) = Again"
    "fst (snd (iteration pf_table cfg0 w_quota_then_done ''lg'' ''log'' ''sg'' locals0 env0)) = locals0"
    "count_ev is_create
       (snd (snd (iteration pf_table cfg0 w_quota_then_done ''lg'' ''log'' ''sg'' locals0 env0))) = 1"
    using T [of 0] z by (simp_all del: main_loop.simps)
  from quota_then_done_create(1) it one two show ?thesis by blast
qed


section \<open>Teardown of task 2\<close>










lemma step_simps [simp]:
  "filter teardown_step (trace (extcall e s)) =
     filter teardown_step (trace s) @ (if teardown_step e then [e] else [])"
  "filter teardown_step (trace (emit e s)) =
     filter teardown_step (trace s) @ (if teardown_step e then [e] else [])"
  "filter teardown_step (trace (print m s)) =
     filter teardown_step (trace s) @ (if teardown_step (EvPrint m) then [EvPrint m] else [])"
  "filter teardown_step (trace (sleep k s)) = filter teardown_step (trace s)"
  by (simp_all add: extcall_def emit_def print_def sleep_def)






























end
